theory Spec2Isabelle
  imports Complex_Main "HOL-Library.Sublist"
begin

section \<open>Python values, exceptions and outcomes\<close>

text \<open>
  The exceptions the two modules raise or let through. \<open>OtherError\<close> stands for any
  exception class of the per-item code (the \<open>Well\<close> class is not part of the modelled
  files); every constructor is an instance of Python's \<open>Exception\<close>.
\<close>

datatype 'e pyexc =
    SkipWellException
  | SkipBatchException
  | RuntimeError string
  | ValueError string
  | IndexError
  | KeyError
  | AttributeError
  | TypeError
  | ZeroDivisionError
  | OtherError 'e

text \<open>
  The objects that end up in the \<open>wells\<close> component and in result lists: \<open>None\<close>, a
  \<open>Well\<close> instance, an exception instance captured by the dispatcher, an attribute value
  of a segment, or a sequence of such objects.
\<close>

datatype ('w, 'e, 'a) obj =
    PyNone
  | WellObj 'w
  | Exc "'e pyexc"
  | Attr 'a
  | Arr "('w, 'e, 'a) obj list"

text \<open>A call either returns or raises; the state it leaves behind is given beside it.\<close>

datatype 'e outcome = Returned | Raised "'e pyexc"

fun str_nat :: "nat \<Rightarrow> string" where
  "str_nat n =
     (if n < 10 then [''0123456789'' ! n]
      else str_nat (n div 10) @ [''0123456789'' ! (n mod 10)])"

declare str_nat.simps [simp del]

section \<open>The index and the well batch\<close>

text \<open>
  A dataset index: its ordered keys and, for a \<open>FilesIndex\<close>, the full path of each key
  (\<open>fullpath = None\<close> for an index that is not a \<open>FilesIndex\<close>).
\<close>

record 'k dsindex =
  indices :: "'k list"
  fullpath :: "('k \<rightharpoonup> string) option"

text \<open>
  A \<open>WellBatch\<close>: the attribute \<open>index\<close>, the component \<open>wells\<close> (declared by
  \<open>components = ("wells",)\<close>) and the batch variables that \<open>get_crops\<close> adds with
  \<open>setattr\<close>.
\<close>

record ('k, 'w, 'e, 'a) well_batch =
  index :: "'k dsindex"
  wells :: "('w, 'e, 'a) obj list"
  vars :: "string \<rightharpoonup> ('w, 'e, 'a) obj"

definition components :: "string list" where
  "components = [''wells'']"

definition batch_len :: "('k, 'w, 'e, 'a) well_batch \<Rightarrow> nat" where
  "batch_len self = length (indices (index self))"

definition component_len :: "('k, 'w, 'e, 'a) well_batch \<Rightarrow> string \<Rightarrow> nat option" where
  "component_len self name = (if name = ''wells'' then Some (length (wells self)) else None)"

text \<open>
  Modelled from the spec: \<open>Index.subset\<close> (\<open>create_subset\<close> of the batchflow index, which
  is not among the sources) returns a new Index holding the given keys in the given order;
  it stays an index of the same kind.
\<close>

definition create_subset :: "'k dsindex \<Rightarrow> 'k list \<Rightarrow> 'k dsindex" where
  "create_subset idx ks = idx\<lparr>indices := ks\<rparr>"

text \<open>
  Modelled from the spec: the position of a key in the Index (\<open>get_pos\<close> of batchflow);
  a key the Index does not hold has no position.
\<close>

fun index_get_pos :: "'k list \<Rightarrow> 'k \<Rightarrow> nat option" where
  "index_get_pos [] k = None"
| "index_get_pos (x # xs) k = (if x = k then Some 0 else map_option Suc (index_get_pos xs k))"

definition get_pos :: "('k, 'w, 'e, 'a) well_batch \<Rightarrow> 'k \<Rightarrow> 'e pyexc + nat" where
  "get_pos self k =
     (case index_get_pos (indices (index self)) k of None \<Rightarrow> Inl KeyError | Some p \<Rightarrow> Inr p)"

subsection \<open>Filtering assembly\<close>

definition isinstance_SkipWellException :: "('w, 'e, 'a) obj \<Rightarrow> bool" where
  "isinstance_SkipWellException res = (res = Exc SkipWellException)"

definition isinstance_Exception :: "('w, 'e, 'a) obj \<Rightarrow> bool" where
  "isinstance_Exception res = (case res of Exc _ \<Rightarrow> True | _ \<Rightarrow> False)"

text \<open>
  Modelled from the spec: \<open>any_action_failed\<close> and \<open>get_errors\<close> of batchflow (not among
  the sources): a result that is an exception instance is a Failure, and the errors of a
  result list are its Failures, in order.
\<close>

definition any_action_failed :: "('w, 'e, 'a) obj list \<Rightarrow> bool" where
  "any_action_failed results = list_ex isinstance_Exception results"

definition get_errors :: "('w, 'e, 'a) obj list \<Rightarrow> ('w, 'e, 'a) obj list" where
  "get_errors all_res = filter isinstance_Exception all_res"

text \<open>numpy's \<open>a[mask]\<close> for a boolean mask of the length of \<open>a\<close>.\<close>

definition boolean_index :: "'x list \<Rightarrow> bool list \<Rightarrow> 'x list" where
  "boolean_index a bmask = map fst (filter snd (zip a bmask))"

text \<open>
  \<open>WellBatch._filter_assemble\<close>. The value is the outcome, the batch as the call leaves
  it, and what \<open>print(errors)\<close> wrote (nothing when that line is not reached).
  Two numpy details are written out: \<open>~skip_mask\<close> of the mask built from an empty result
  list (a float array) is a \<open>TypeError\<close>, and indexing \<open>self.indices\<close> with a mask of
  another length is an \<open>IndexError\<close>.
\<close>

definition filter_assemble ::
  "('k, 'w, 'e, 'a) well_batch \<Rightarrow> ('w, 'e, 'a) obj list \<Rightarrow>
     'e outcome \<times> ('k, 'w, 'e, 'a) well_batch \<times> ('w, 'e, 'a) obj list" where
  "filter_assemble self results =
     (let skip_mask = map isinstance_SkipWellException results in
      if length (filter id skip_mask) = batch_len self then (Raised SkipBatchException, self, [])
      else if results = [] then (Raised TypeError, self, [])
      else
        let results' = boolean_index results (map Not skip_mask) in
        if any_action_failed results' then
          (Raised (RuntimeError ''Could not assemble the batch''), self, get_errors results')
        else if length skip_mask \<noteq> length (indices (index self)) then (Raised IndexError, self, [])
        else
          (Returned,
           self\<lparr>index := create_subset (index self)
                              (boolean_index (indices (index self)) (map Not skip_mask)),
                wells := results'\<rparr>,
           []))"

subsection \<open>Loading attributes of the wells into batch variables\<close>

text \<open>
  \<open>src\<close> and \<open>dst\<close> of \<open>get_crops\<close> are, by its docstring, a \<open>str\<close> or an iterable of
  names.
\<close>

datatype names = Str string | Iter "string list"

text \<open>
  Modelled from the spec: \<open>to_list\<close> of \<open>.utils\<close> is not among the sources; following the
  docstring of \<open>get_crops\<close> it turns a single name into the list holding it and an
  iterable into the list of its elements.
\<close>

definition to_list :: "names \<Rightarrow> string list" where
  "to_list obj = (case obj of Str s \<Rightarrow> [s] | Iter xs \<Rightarrow> xs)"

text \<open>The message of the \<open>ValueError\<close>, with the two lengths formatted in.\<close>

definition lengths_message :: "nat \<Rightarrow> nat \<Rightarrow> string" where
  "lengths_message n m =
     [CHR 0x27] @ ''src'' @ [CHR 0x27] @ '' and '' @ [CHR 0x27] @ ''dst'' @ [CHR 0x27] @
     '' must be of the same length but '' @ str_nat n @ '' and '' @ str_nat m @ '' were given''"

text \<open>A list comprehension stops at the first element that raises.\<close>

fun collect :: "('x + 'y) list \<Rightarrow> 'x + 'y list" where
  "collect [] = Inr []"
| "collect (Inl e # rs) = Inl e"
| "collect (Inr y # rs) = (case collect rs of Inl e \<Rightarrow> Inl e | Inr ys \<Rightarrow> Inr (y # ys))"

text \<open>
  The inner comprehension \<open>[getattr(segment, attr_from) for segment in well.iter_level()]\<close>
  for one element of \<open>self.wells\<close>. \<open>iter_level\<close> and the attributes of a segment belong
  to the \<open>Well\<close> class and are parameters; an element that is not a well has no
  \<open>iter_level\<close>, and a segment without the attribute raises likewise.
\<close>

definition well_crops ::
  "('w \<Rightarrow> 'seg list) \<Rightarrow> ('seg \<Rightarrow> string \<Rightarrow> 'a option) \<Rightarrow> string \<Rightarrow> ('w, 'e, 'a) obj \<Rightarrow>
     'e pyexc + ('w, 'e, 'a) obj" where
  "well_crops iter_level getattr_segment attr_from well =
     (case well of
        WellObj w \<Rightarrow>
          (case those (map (\<lambda>segment. getattr_segment segment attr_from) (iter_level w)) of
             None \<Rightarrow> Inl AttributeError
           | Some vs \<Rightarrow> Inr (Arr (map Attr vs)))
      | _ \<Rightarrow> Inl AttributeError)"

text \<open>
  \<open>setattr(self, attr_to, np.array(crops))\<close>: the name of the declared component replaces
  the component, any other name becomes a batch variable. (The attribute \<open>index\<close> is typed
  as a dataset index here, so a destination of that name is kept among the variables.)
\<close>

definition setattr_crops ::
  "('k, 'w, 'e, 'a) well_batch \<Rightarrow> string \<Rightarrow> ('w, 'e, 'a) obj list \<Rightarrow> ('k, 'w, 'e, 'a) well_batch" where
  "setattr_crops self attr_to crops =
     (if attr_to = ''wells'' then self\<lparr>wells := crops\<rparr>
      else self\<lparr>vars := (vars self)(attr_to \<mapsto> Arr crops)\<rparr>)"

fun get_crops_loop ::
  "('w \<Rightarrow> 'seg list) \<Rightarrow> ('seg \<Rightarrow> string \<Rightarrow> 'a option) \<Rightarrow> ('k, 'w, 'e, 'a) well_batch \<Rightarrow>
     (string \<times> string) list \<Rightarrow> 'e outcome \<times> ('k, 'w, 'e, 'a) well_batch" where
  "get_crops_loop iter_level getattr_segment self [] = (Returned, self)"
| "get_crops_loop iter_level getattr_segment self ((attr_from, attr_to) # rest) =
     (case collect (map (well_crops iter_level getattr_segment attr_from) (wells self)) of
        Inl e \<Rightarrow> (Raised e, self)
      | Inr crops \<Rightarrow>
          get_crops_loop iter_level getattr_segment (setattr_crops self attr_to crops) rest)"

text \<open>\<open>WellBatch.get_crops\<close>: the outcome and the batch as the call leaves it.\<close>

definition get_crops ::
  "('w \<Rightarrow> 'seg list) \<Rightarrow> ('seg \<Rightarrow> string \<Rightarrow> 'a option) \<Rightarrow> ('k, 'w, 'e, 'a) well_batch \<Rightarrow>
     names \<Rightarrow> names \<Rightarrow> 'e outcome \<times> ('k, 'w, 'e, 'a) well_batch" where
  "get_crops iter_level getattr_segment self src dst =
     (let src' = to_list src; dst' = to_list dst in
      if length src' \<noteq> length dst' then
        (Raised (ValueError (lengths_message (length src') (length dst'))), self)
      else get_crops_loop iter_level getattr_segment self (zip src' dst'))"

subsection \<open>The delegating metaclass\<close>

text \<open>The arguments of one \<open>inbatch_parallel\<close> decoration.\<close>

record inbatch_parallel =
  init :: string
  post :: "string option"
  target :: string

text \<open>
  What a class namespace binds to a name: the \<open>targets\<close> dictionary, something the class
  body defines itself, or the action that \<open>_make_parallel_action\<close> builds (its decoration
  and the name its delegator closed over).
\<close>

datatype 'm attr =
    Targets "string \<rightharpoonup> string"
  | Defined 'm
  | Delegated inbatch_parallel string

definition make_parallel_action :: "string \<Rightarrow> string \<Rightarrow> 'm attr" where
  "make_parallel_action name tgt =
     Delegated \<lparr>init = ''indices'', post = Some ''_filter_assemble'', target = tgt\<rparr> name"

text \<open>
  The \<open>delegator\<close> closure of \<open>_make_parallel_action\<close>. \<open>Well\<close> is the attribute table of
  the \<open>Well\<close> class (a parameter: the class is not among the sources); its methods take
  the instance and the forwarded arguments.
\<close>

definition delegator ::
  "(string \<Rightarrow> (('w, 'e, 'a) obj \<Rightarrow> 'args \<Rightarrow> 'e pyexc + ('w, 'e, 'a) obj) option) \<Rightarrow> string \<Rightarrow>
     ('k, 'w, 'e, 'a) well_batch \<Rightarrow> 'k \<Rightarrow> 'args \<Rightarrow> 'e pyexc + ('w, 'e, 'a) obj" where
  "delegator Well name self ix args =
     (case get_pos self ix of
        Inl e \<Rightarrow> Inl e
      | Inr pos \<Rightarrow>
          (case Well name of
             None \<Rightarrow> Inl AttributeError
           | Some f \<Rightarrow>
               if pos < length (wells self) then f (wells self ! pos) args else Inl IndexError))"

text \<open>
  Calling, for one item, what a namespace binds to a name: a method of the class body
  runs as it is, a synthesized action runs its delegator, and the \<open>targets\<close> dictionary
  is not callable.
\<close>

definition call_item ::
  "(string \<Rightarrow> (('w, 'e, 'a) obj \<Rightarrow> 'args \<Rightarrow> 'e pyexc + ('w, 'e, 'a) obj) option) \<Rightarrow>
     (('k, 'w, 'e, 'a) well_batch \<Rightarrow> 'k \<Rightarrow> 'args \<Rightarrow> 'e pyexc + ('w, 'e, 'a) obj) attr \<Rightarrow>
     ('k, 'w, 'e, 'a) well_batch \<Rightarrow> 'k \<Rightarrow> 'args \<Rightarrow> 'e pyexc + ('w, 'e, 'a) obj" where
  "call_item Well a self ix args =
     (case a of
        Targets _ \<Rightarrow> Inl TypeError
      | Defined f \<Rightarrow> f self ix args
      | Delegated d name \<Rightarrow> delegator Well name self ix args)"

text \<open>
  \<open>abstract_methods\<close> of \<open>__new__\<close>: the union of \<open>base.__abstractmethods__\<close> over the
  bases that have the attribute (\<open>None\<close> for a base without it).
\<close>

definition abstract_methods :: "string list option list \<Rightarrow> string list" where
  "abstract_methods bases =
     remdups (concat (map (\<lambda>base. case base of None \<Rightarrow> [] | Some ms \<Rightarrow> ms) bases))"

text \<open>
  The loop of \<open>WellDelegatingMeta.__new__\<close> over the abstract method names.
  \<open>namespace['targets']\<close> is a \<open>KeyError\<close> when the class body has no \<open>targets\<close>, and
  \<open>getattr(Well, name)\<close> (evaluated by \<open>wraps\<close>) an \<open>AttributeError\<close> when \<open>Well\<close> has no
  such attribute.
\<close>

fun bind_methods ::
  "(string \<Rightarrow> 'f option) \<Rightarrow> string \<Rightarrow> (string \<rightharpoonup> 'm attr) \<Rightarrow> string list \<Rightarrow>
     'e pyexc + (string \<rightharpoonup> 'm attr)" where
  "bind_methods Well name namespace [] = Inr namespace"
| "bind_methods Well name namespace (method_name # rest) =
     (case namespace method_name of
        Some _ \<Rightarrow> bind_methods Well name namespace rest
      | None \<Rightarrow>
          (case namespace ''targets'' of
             None \<Rightarrow> Inl KeyError
           | Some (Targets targets) \<Rightarrow>
               (case Well method_name of
                  None \<Rightarrow> Inl AttributeError
                | Some _ \<Rightarrow>
                    bind_methods Well name
                      (namespace(method_name \<mapsto>
                         make_parallel_action method_name
                           (case targets name of None \<Rightarrow> ''threads'' | Some t \<Rightarrow> t)))
                      rest)
           | Some _ \<Rightarrow> Inl AttributeError))"

text \<open>
  \<open>WellDelegatingMeta.__new__\<close>: the namespace the class is created from, or the
  exception raised on the way.
\<close>

definition meta_new ::
  "(string \<Rightarrow> 'f option) \<Rightarrow> string \<Rightarrow> string list option list \<Rightarrow> (string \<rightharpoonup> 'm attr) \<Rightarrow>
     'e pyexc + (string \<rightharpoonup> 'm attr)" where
  "meta_new Well name bases namespace = bind_methods Well name namespace (abstract_methods bases)"

subsection \<open>Worker initialization\<close>

text \<open>The decoration of \<open>_init_wells\<close>: no \<open>post\<close> is given.\<close>

definition init_wells_decoration :: inbatch_parallel where
  "init_wells_decoration = \<lparr>init = ''indices'', post = None, target = ''threads''\<rparr>"

text \<open>
  The path of an item: \<open>src[index]\<close>, else the full path the index (\<open>self.index\<close>)
  holds for the key, else a \<open>ValueError\<close>.
\<close>

definition well_path ::
  "'k dsindex \<Rightarrow> 'k \<Rightarrow> ('k \<rightharpoonup> string) option \<Rightarrow> 'e pyexc + string" where
  "well_path idx ix src =
     (case src of
        Some s \<Rightarrow> (case s ix of None \<Rightarrow> Inl KeyError | Some path \<Rightarrow> Inr path)
      | None \<Rightarrow>
          (case fullpath idx of
             Some paths \<Rightarrow> (case paths ix of None \<Rightarrow> Inl KeyError | Some path \<Rightarrow> Inr path)
           | None \<Rightarrow> Inl (ValueError ''Source path is not specified'')))"

text \<open>
  The first half of the body of \<open>_init_wells\<close>: the path, then \<open>Well(path, **kwargs)\<close>.
  \<open>Well\<close> is the constructor of the \<open>Well\<close> class, a parameter; it may raise, the Skip
  signal included.
\<close>

definition construct_well ::
  "(string \<Rightarrow> 'kw \<Rightarrow> 'e pyexc + 'w) \<Rightarrow> ('k \<rightharpoonup> string) option \<Rightarrow> 'kw \<Rightarrow> 'k dsindex \<Rightarrow> 'k \<Rightarrow>
     'e pyexc + 'w" where
  "construct_well Well src kwargs idx ix =
     (case well_path idx ix src of Inl e \<Rightarrow> Inl e | Inr path \<Rightarrow> Well path kwargs)"

text \<open>
  The body of \<open>WellBatch._init_wells\<close> for one item: what it raises or returns (it returns
  \<open>None\<close>), and the batch as it leaves it.
\<close>

definition init_wells ::
  "(string \<Rightarrow> 'kw \<Rightarrow> 'e pyexc + 'w) \<Rightarrow> ('k \<rightharpoonup> string) option \<Rightarrow> 'kw \<Rightarrow>
     ('k, 'w, 'e, 'a) well_batch \<Rightarrow> 'k \<Rightarrow> ('e pyexc + ('w, 'e, 'a) obj) \<times> ('k, 'w, 'e, 'a) well_batch" where
  "init_wells Well src kwargs self ix =
     (case construct_well Well src kwargs (index self) ix of
        Inl e \<Rightarrow> (Inl e, self)
      | Inr well \<Rightarrow>
          (case get_pos self ix of
             Inl e \<Rightarrow> (Inl e, self)
           | Inr i \<Rightarrow>
               if i < length (wells self)
               then (Inr PyNone, self\<lparr>wells := (wells self)[i := WellObj well]\<rparr>)
               else (Inl IndexError, self)))"

text \<open>
  Modelled from the spec: the Dispatcher (\<open>inbatch_parallel\<close> of batchflow, not among the
  sources) runs the per-item operation for every key in Index order and collects the
  results in that order; an exception raised by one item becomes that item's result and
  does not stop the other items. The tasks of one dispatch are run one after the other
  here (each task of \<open>_init_wells\<close> writes its own slot of \<open>wells\<close>).
\<close>

fun dispatch ::
  "('s \<Rightarrow> 'k \<Rightarrow> ('e pyexc + ('w, 'e, 'a) obj) \<times> 's) \<Rightarrow> 's \<Rightarrow> 'k list \<Rightarrow> ('w, 'e, 'a) obj list \<times> 's" where
  "dispatch op self [] = ([], self)"
| "dispatch op self (k # ks) =
     (case op self k of
        (r, self') \<Rightarrow>
          (case dispatch op self' ks of
             (rs, self'') \<Rightarrow> ((case r of Inl e \<Rightarrow> Exc e | Inr v \<Rightarrow> v) # rs, self'')))"

text \<open>
  The post methods that \<open>WellBatch\<close> itself defines, looked up by the name a decoration
  gives (\<open>getattr(self, post)\<close>).
\<close>

definition post_method ::
  "string \<Rightarrow>
     (('k, 'w, 'e, 'a) well_batch \<Rightarrow> ('w, 'e, 'a) obj list \<Rightarrow>
        'e outcome \<times> ('k, 'w, 'e, 'a) well_batch \<times> ('w, 'e, 'a) obj list) option" where
  "post_method name = (if name = ''_filter_assemble'' then Some filter_assemble else None)"

text \<open>
  Modelled from the spec: the end of a dispatch (\<open>inbatch_parallel\<close> of batchflow, not
  among the sources). A raised exception is a Failure result; Skip is resolved only
  inside the filtering Assembler, and failures always surface to the caller. So a
  dispatch whose decoration names a post step hands the results to it, and a dispatch
  that names none has nothing that resolves a Skip: when any result is an exception
  instance the call logs those results and raises
  \<open>RuntimeError("Parallel action failed")\<close>, and otherwise it returns the batch.
  The value is the outcome, the batch as the call leaves it, and what was reported.
\<close>

definition call_post ::
  "inbatch_parallel \<Rightarrow> ('k, 'w, 'e, 'a) well_batch \<Rightarrow> ('w, 'e, 'a) obj list \<Rightarrow>
     'e outcome \<times> ('k, 'w, 'e, 'a) well_batch \<times> ('w, 'e, 'a) obj list" where
  "call_post decoration self results =
     (case post decoration of
        None \<Rightarrow>
          if any_action_failed results
          then (Raised (RuntimeError ''Parallel action failed''), self, get_errors results)
          else (Returned, self, [])
      | Some name \<Rightarrow>
          (case post_method name of
             None \<Rightarrow> (Raised AttributeError, self, [])
           | Some f \<Rightarrow> f self results))"

text \<open>
  \<open>WellBatch.__init__\<close> for \<open>preloaded = None\<close>: the \<open>wells\<close> component is filled with
  \<open>None\<close> and \<open>_init_wells\<close> is called, that is, dispatched over the keys under its
  decoration. When that call raises, so does the construction, and no batch is handed
  to the caller.
\<close>

definition init_well_batch ::
  "(string \<Rightarrow> 'kw \<Rightarrow> 'e pyexc + 'w) \<Rightarrow> 'k dsindex \<Rightarrow> ('k \<rightharpoonup> string) option \<Rightarrow> 'kw \<Rightarrow>
     'e outcome \<times> ('k, 'w, 'e, 'a) well_batch \<times> ('w, 'e, 'a) obj list" where
  "init_well_batch Well idx src kwargs =
     (let self = \<lparr>index = idx, wells = replicate (length (indices idx)) PyNone, vars = Map.empty\<rparr>
      in case dispatch (init_wells Well src kwargs) self (indices (index self)) of
           (results, self') \<Rightarrow> call_post init_wells_decoration self' results)"

section \<open>Core image batches\<close>

subsection \<open>Crops\<close>

text \<open>
  An image array is known by its shape and its content; \<open>slice(None)\<close> is
  \<open>Slice None None\<close> and \<open>slice(a, b)\<close> is \<open>Slice (Some a) (Some b)\<close>.
\<close>

datatype 'p ndarray = Ndarray (shape: "nat list") (content: 'p)

datatype slice = Slice "int option" "int option"

text \<open>\<open>img.shape[-2]\<close>: an \<open>IndexError\<close> for an array of fewer than two dimensions.\<close>

definition shape_m2 :: "'p ndarray \<Rightarrow> 'e pyexc + nat" where
  "shape_m2 img =
     (if length (shape img) < 2 then Inl IndexError
      else Inr (shape img ! (length (shape img) - 2)))"

text \<open>Python's \<open>min\<close> of a list: a \<open>ValueError\<close> for the empty list.\<close>

definition py_min :: "nat list \<Rightarrow> 'e pyexc + nat" where
  "py_min xs =
     (case xs of
        [] \<Rightarrow> Inl (ValueError ''min() arg is an empty sequence'')
      | x # rest \<Rightarrow> Inr (fold min rest x))"

definition image_length :: "'p ndarray list \<Rightarrow> 'e pyexc + nat" where
  "image_length images =
     (case collect (map shape_m2 images) of Inl e \<Rightarrow> Inl e | Inr lens \<Rightarrow> py_min lens)"

text \<open>
  numpy's \<open>arange(start, stop, step)\<close> on integers: \<open>ceil((stop - start) / step)\<close>
  values (none when that is not positive), and a \<open>ZeroDivisionError\<close> for \<open>step = 0\<close>.
\<close>

definition arange :: "int \<Rightarrow> int \<Rightarrow> int \<Rightarrow> 'e pyexc + int list" where
  "arange start stop step =
     (if step = 0 then Inl ZeroDivisionError
      else Inr (map (\<lambda>i. start + int i * step) [0..<nat (- ((start - stop) div step))]))"

text \<open>
  numpy's \<open>random.randint(low, high, size=n)\<close>: \<open>n\<close> draws from \<open>low, ..., high - 1\<close>, and
  a \<open>ValueError\<close> when that range is empty. The randomness is the sequence \<open>rnd\<close> of raw
  draws; every list of \<open>n\<close> values of the range is the result for some \<open>rnd\<close>.
\<close>

definition randint :: "(nat \<Rightarrow> nat) \<Rightarrow> int \<Rightarrow> int \<Rightarrow> nat \<Rightarrow> 'e pyexc + int list" where
  "randint rnd low high n =
     (if high \<le> low then Inl (ValueError ''low >= high'')
      else Inr (map (\<lambda>i. low + int (rnd i mod nat (high - low))) [0..<n]))"

text \<open>
  \<open>[[slice(None)] * ndim] * n\<close>: Python builds ONE inner list and an outer list of \<open>n\<close>
  references to it. The store maps an address to the list object that lives there; the
  inner list is put at address 0 and the outer list holds that address \<open>n\<close> times.
\<close>

definition alloc_slices :: "nat \<Rightarrow> nat \<Rightarrow> (nat \<Rightarrow> slice list) \<times> nat list" where
  "alloc_slices ndim n = ((\<lambda>_. [])(0 := replicate ndim (Slice None None)), replicate n 0)"

text \<open>
  The loop \<open>for j, position in enumerate(pos): slices[j][-2] = slice(position, position + length)\<close>:
  an assignment into the list object that \<open>slices[j]\<close> refers to.
\<close>

fun set_slices ::
  "(nat \<Rightarrow> slice list) \<Rightarrow> nat list \<Rightarrow> nat \<Rightarrow> int list \<Rightarrow> int \<Rightarrow> 'e pyexc + (nat \<Rightarrow> slice list)" where
  "set_slices store slices j [] lgth = Inr store"
| "set_slices store slices j (position # rest) lgth =
     (if length slices \<le> j then Inl IndexError
      else
        let inner = store (slices ! j) in
        if length inner < 2 then Inl IndexError
        else
          set_slices
            (store(slices ! j :=
               inner[length inner - 2 := Slice (Some position) (Some (position + lgth))]))
            slices (Suc j) rest lgth)"

text \<open>
  The last line of both crop methods, \<open>[np.array([img[_slice] for _slice in slices]) for img in images]\<close>:
  a window \<open>img[_slice]\<close> is given by the image and the index it is taken with.
\<close>

definition take_windows ::
  "(nat \<Rightarrow> slice list) \<Rightarrow> nat list \<Rightarrow> 'p ndarray list \<Rightarrow> ('p ndarray \<times> slice list) list list" where
  "take_windows store slices images = map (\<lambda>img. map (\<lambda>r. (img, store r)) slices) images"

text \<open>
  The body of \<open>CoreBatch.crop\<close> for one item, from the images that \<open>_get_components\<close>
  returned for the source components.
\<close>

definition crop ::
  "'p ndarray list \<Rightarrow> int \<Rightarrow> int \<Rightarrow> 'e pyexc + ('p ndarray \<times> slice list) list list" where
  "crop images lgth step =
     (case image_length images of
        Inl e \<Rightarrow> Inl e
      | Inr image_len \<Rightarrow>
          (case arange 0 (int image_len - lgth + 1) step of
             Inl e \<Rightarrow> Inl e
           | Inr pos \<Rightarrow>
               (case images of
                  [] \<Rightarrow> Inl IndexError
                | img0 # _ \<Rightarrow>
                    (case alloc_slices (length (shape img0)) (length pos) of
                       (store, slices) \<Rightarrow>
                         (case set_slices store slices 0 pos lgth of
                            Inl e \<Rightarrow> Inl e
                          | Inr store' \<Rightarrow> Inr (take_windows store' slices images))))))"

text \<open>The offsets \<open>pos\<close> that \<open>crop\<close> computes with \<open>arange\<close>.\<close>

definition crop_positions :: "'p ndarray list \<Rightarrow> int \<Rightarrow> int \<Rightarrow> 'e pyexc + int list" where
  "crop_positions images lgth step =
     (case image_length images of
        Inl e \<Rightarrow> Inl e
      | Inr image_len \<Rightarrow> arange 0 (int image_len - lgth + 1) step)"

text \<open>The offsets \<open>pos\<close> that \<open>random_crop\<close> draws.\<close>

definition random_crop_positions ::
  "(nat \<Rightarrow> nat) \<Rightarrow> 'p ndarray list \<Rightarrow> int \<Rightarrow> nat \<Rightarrow> 'e pyexc + int list" where
  "random_crop_positions rnd images lgth n_crops =
     (case image_length images of
        Inl e \<Rightarrow> Inl e
      | Inr image_len \<Rightarrow> randint rnd 0 (int image_len - lgth + 1) n_crops)"

text \<open>The body of \<open>CoreBatch.random_crop\<close> for one item.\<close>

definition random_crop ::
  "(nat \<Rightarrow> nat) \<Rightarrow> 'p ndarray list \<Rightarrow> int \<Rightarrow> nat \<Rightarrow>
     'e pyexc + ('p ndarray \<times> slice list) list list" where
  "random_crop rnd images lgth n_crops =
     (case images of
        [] \<Rightarrow> Inl IndexError
      | img0 # _ \<Rightarrow>
          (case alloc_slices (length (shape img0)) n_crops of
             (store, slices) \<Rightarrow>
               (case random_crop_positions rnd images lgth n_crops of
                  Inl e \<Rightarrow> Inl e
                | Inr pos \<Rightarrow>
                    (case set_slices store slices 0 pos lgth of
                       Inl e \<Rightarrow> Inl e
                     | Inr store' \<Rightarrow> Inr (take_windows store' slices images)))))"

text \<open>The offset of a window along the cropped axis: the start of its slice at \<open>[-2]\<close>.\<close>

definition window_offset :: "slice list \<Rightarrow> int option" where
  "window_offset sl = (case sl ! (length sl - 2) of Slice start stop \<Rightarrow> start)"

subsection \<open>The cross-item shuffle\<close>

text \<open>
  A \<open>CoreBatch\<close> as Python holds it: its keys, the array object each attribute name
  refers to (an address), and the array that lives at each address. Two names may refer
  to the same array. A cell of an array is an image or a label.
\<close>

datatype 'img cell = Img 'img | Lab int

record ('k, 'img) core_batch =
  core_index :: "'k list"
  attrs :: "string \<rightharpoonup> nat"
  heap :: "nat \<Rightarrow> 'img cell list"

definition core_components :: "string list" where
  "core_components = [''dl'', ''uv'', ''labels'']"

text \<open>
  \<open>_get_components(index, component)\<close> for a single component name: the position of the
  key, then the attribute, then the element.
\<close>

definition get_component ::
  "('k, 'img) core_batch \<Rightarrow> 'k \<Rightarrow> string \<Rightarrow> 'e pyexc + 'img cell" where
  "get_component self ix component =
     (case index_get_pos (core_index self) ix of
        None \<Rightarrow> Inl KeyError
      | Some pos \<Rightarrow>
          (case attrs self component of
             None \<Rightarrow> Inl AttributeError
           | Some a \<Rightarrow>
               if pos < length (heap self a) then Inr (heap self a ! pos) else Inl IndexError))"

text \<open>
  The statement \<open>getattr(self, dst[d])[self.get_pos(None, src[0], ix)] = v\<close>: an
  assignment into the array the attribute refers to.
\<close>

definition set_component ::
  "string list \<Rightarrow> nat \<Rightarrow> string list \<Rightarrow> 'k \<Rightarrow> 'img cell \<Rightarrow> ('k, 'img) core_batch \<Rightarrow>
     'e outcome \<times> ('k, 'img) core_batch" where
  "set_component dst d src ix v self =
     (if length dst \<le> d then (Raised IndexError, self)
      else
        (case attrs self (dst ! d) of
           None \<Rightarrow> (Raised AttributeError, self)
         | Some a \<Rightarrow>
             if src = [] then (Raised IndexError, self)
             else
               (case index_get_pos (core_index self) ix of
                  None \<Rightarrow> (Raised KeyError, self)
                | Some pos \<Rightarrow>
                    if pos < length (heap self a)
                    then (Returned, self\<lparr>heap := (heap self)(a := (heap self a)[pos := v])\<rparr>)
                    else (Raised IndexError, self))))"

text \<open>One statement after another: the second runs only when the first returned.\<close>

definition and_then :: "'e outcome \<times> 's \<Rightarrow> ('s \<Rightarrow> 'e outcome \<times> 's) \<Rightarrow> 'e outcome \<times> 's" where
  "and_then r f = (case r of (Returned, s) \<Rightarrow> f s | (Raised e, s) \<Rightarrow> (Raised e, s))"

text \<open>The body of the second loop of \<open>shuffle_images\<close> for one pair \<open>(i, j)\<close>.\<close>

definition swap_pair ::
  "string list \<Rightarrow> string list \<Rightarrow> 'k \<Rightarrow> 'k \<Rightarrow> ('k, 'img) core_batch \<Rightarrow>
     'e outcome \<times> ('k, 'img) core_batch" where
  "swap_pair src dst i j self =
     (if i = j then (Returned, self)
      else if length src \<le> 1 then (Raised IndexError, self)
      else
        (case get_component self i (src ! 1) of
           Inl e \<Rightarrow> (Raised e, self)
         | Inr uv1 \<Rightarrow>
             (case get_component self j (src ! 1) of
                Inl e \<Rightarrow> (Raised e, self)
              | Inr uv2 \<Rightarrow>
                  and_then (and_then (and_then
                    (set_component dst 1 src i uv2 self)
                    (set_component dst 1 src j uv1))
                    (set_component dst 2 src i (Lab 1)))
                    (set_component dst 2 src j (Lab 1)))))"

fun shuffle_loop ::
  "string list \<Rightarrow> string list \<Rightarrow> ('k \<times> 'k) list \<Rightarrow> ('k, 'img) core_batch \<Rightarrow>
     'e outcome \<times> ('k, 'img) core_batch" where
  "shuffle_loop src dst [] self = (Returned, self)"
| "shuffle_loop src dst ((i, j) # rest) self =
     and_then (swap_pair src dst i j self) (shuffle_loop src dst rest)"

text \<open>
  The first loop, \<open>for i, component in enumerate(src): setattr(self, dst[i], getattr(self, component))\<close>:
  the name \<open>dst[i]\<close> is bound to the array that \<open>component\<close> refers to (no copy is made).
\<close>

fun rebind ::
  "string list \<Rightarrow> nat \<Rightarrow> string list \<Rightarrow> ('k, 'img) core_batch \<Rightarrow>
     'e outcome \<times> ('k, 'img) core_batch" where
  "rebind dst i [] self = (Returned, self)"
| "rebind dst i (component # rest) self =
     (if length dst \<le> i then (Raised IndexError, self)
      else
        (case attrs self component of
           None \<Rightarrow> (Raised AttributeError, self)
         | Some a \<Rightarrow> rebind dst (Suc i) rest (self\<lparr>attrs := (attrs self)(dst ! i \<mapsto> a)\<rparr>)))"

text \<open>
  \<open>int(np.ceil(len(self.indices) * proba / 2))\<close>, with the probability a rational number
  (the rounding of floating point is not modelled).
\<close>

definition n_permutations :: "nat \<Rightarrow> rat \<Rightarrow> int" where
  "n_permutations n proba = \<lceil>of_nat n * proba / 2\<rceil>"

text \<open>
  numpy's \<open>random.choice(a, n, replace=False)\<close>: \<open>n\<close> elements of \<open>a\<close> at distinct
  positions, drawn one after the other from what is left; a \<open>ValueError\<close> for a negative
  \<open>n\<close> and for an \<open>n\<close> larger than the population. The randomness is the sequence \<open>rnd\<close>
  of raw draws.
\<close>

fun draw :: "(nat \<Rightarrow> nat) \<Rightarrow> nat \<Rightarrow> 'k list \<Rightarrow> nat \<Rightarrow> 'k list" where
  "draw rnd t pool 0 = []"
| "draw rnd t pool (Suc n) =
     (let r = rnd t mod length pool
      in pool ! r # draw rnd (Suc t) (take r pool @ drop (Suc r) pool) n)"

definition random_choice :: "(nat \<Rightarrow> nat) \<Rightarrow> 'k list \<Rightarrow> int \<Rightarrow> 'e pyexc + 'k list" where
  "random_choice rnd a n =
     (if n < 0 then Inl (ValueError ''negative dimensions are not allowed'')
      else if int (length a) < n then
        Inl (ValueError ''Cannot take a larger sample than population when replace=False'')
      else Inr (draw rnd 0 a (nat n)))"

text \<open>The pairs \<open>zip(self.indices[:n_permutations], shuffled_indices)\<close> of the second loop.\<close>

definition shuffle_pairs ::
  "(nat \<Rightarrow> nat) \<Rightarrow> 'k list \<Rightarrow> rat \<Rightarrow> 'e pyexc + ('k \<times> 'k) list" where
  "shuffle_pairs rnd idx proba =
     (case random_choice rnd idx (n_permutations (length idx) proba) of
        Inl e \<Rightarrow> Inl e
      | Inr shuffled_indices \<Rightarrow>
          Inr (zip (take (nat (n_permutations (length idx) proba)) idx) shuffled_indices))"

text \<open>\<open>CoreBatch.shuffle_images\<close>: the outcome and the batch as the call leaves it.\<close>

definition shuffle_images ::
  "(nat \<Rightarrow> nat) \<Rightarrow> rat \<Rightarrow> string list option \<Rightarrow> string list option \<Rightarrow> ('k, 'img) core_batch \<Rightarrow>
     'e outcome \<times> ('k, 'img) core_batch" where
  "shuffle_images rnd proba src dst self =
     (case shuffle_pairs rnd (core_index self) proba of
        Inl e \<Rightarrow> (Raised e, self)
      | Inr pairs \<Rightarrow>
          (let src' = (case src of None \<Rightarrow> core_components | Some s \<Rightarrow> s);
               dst' = (case dst of None \<Rightarrow> core_components | Some d \<Rightarrow> d)
           in and_then (rebind dst' 0 src' self) (shuffle_loop src' dst' pairs)))"

text \<open>
  The positions the second loop writes to: those of the two keys of every pair of
  different keys.
\<close>

definition swapped_positions :: "'k list \<Rightarrow> ('k \<times> 'k) list \<Rightarrow> nat list" where
  "swapped_positions idx pairs =
     List.map_filter (index_get_pos idx)
       (concat (map (\<lambda>(i, j). if i = j then [] else [i, j]) pairs))"

section \<open>Filtering assembly: the claims\<close>

lemma boolean_index_filter:
  "boolean_index xs (map (\<lambda>x. \<not> P x) xs) = filter (\<lambda>x. \<not> P x) xs"
  by (induction xs) (auto simp: boolean_index_def)

lemma boolean_index_zip:
  "length ks = length rs \<Longrightarrow>
   zip (boolean_index ks (map Q rs)) (boolean_index rs (map Q rs)) = filter (\<lambda>p. Q (snd p)) (zip ks rs)"
  by (induction ks rs rule: list_induct2) (auto simp: boolean_index_def)

lemma boolean_index_length:
  "length ks = length rs \<Longrightarrow>
   length (boolean_index ks (map Q rs)) = length (boolean_index rs (map Q rs))"
  by (induction ks rs rule: list_induct2) (auto simp: boolean_index_def)

lemma boolean_index_subseq: "subseq (boolean_index ks bmask) ks"
proof (induction ks arbitrary: bmask)
  case Nil
  show ?case by (simp add: boolean_index_def)
next
  case (Cons k ks)
  show ?case
  proof (cases bmask)
    case Nil
    then show ?thesis by (simp add: boolean_index_def)
  next
    case (Cons m ms)
    with Cons.IH [of ms] show ?thesis
      by (cases m) (auto simp: boolean_index_def)
  qed
qed

lemma count_skips_all:
  "length (filter id (map P rs)) = length rs \<longleftrightarrow> (\<forall>r \<in> set rs. P r)"
proof -
  have "length (filter id (map P rs)) = length (filter P rs)"
    by (induction rs) auto
  then show ?thesis
    by (metis filter_id_conv length_filter_less less_irrefl)
qed

text \<open>
  Claim C1. When the results of a dispatch over the batch (one result per key) hold a
  hard failure that is not a Skip, \<open>_filter_assemble\<close> raises the
  \<open>RuntimeError\<close> "Could not assemble the batch" after printing all the hard failures
  among the results it kept, and the batch is left as it was: neither the Index nor the
  \<open>wells\<close> component nor any batch variable is replaced.
\<close>

theorem filter_assemble_fatal_failure:
  fixes self :: "('k, 'w, 'e, 'a) well_batch"
  assumes "length results = length (indices (index self))"
    and "\<exists>r \<in> set results. \<not> isinstance_SkipWellException r \<and> isinstance_Exception r"
  shows "filter_assemble self results =
           (Raised (RuntimeError ''Could not assemble the batch''), self,
            filter (\<lambda>r. isinstance_Exception r \<and> \<not> isinstance_SkipWellException r) results)"
proof -
  let ?P = "isinstance_SkipWellException :: ('w, 'e, 'a) obj \<Rightarrow> bool"
  from assms(2) obtain r where r: "r \<in> set results" "\<not> ?P r" "isinstance_Exception r"
    by blast
  then have not_all: "\<not> (\<forall>r \<in> set results. ?P r)" by blast
  then have cnt: "length (filter id (map ?P results)) \<noteq> batch_len self"
    using count_skips_all [of ?P results] assms(1) by (simp add: batch_len_def)
  from r(1) have ne: "results \<noteq> []" by auto
  have kept: "boolean_index results (map Not (map ?P results)) = filter (\<lambda>x. \<not> ?P x) results"
    using boolean_index_filter [of results ?P] by (simp add: comp_def)
  have failed: "any_action_failed (filter (\<lambda>x. \<not> ?P x) results)"
    using r by (auto simp: any_action_failed_def list_ex_iff)
  have errs: "get_errors (filter (\<lambda>x. \<not> ?P x) results) =
      filter (\<lambda>r. isinstance_Exception r \<and> \<not> ?P r) results"
    by (simp add: get_errors_def conj_commute)
  show ?thesis
    using cnt ne kept failed errs by (simp add: filter_assemble_def Let_def)
qed

theorem filter_assemble_fatal_failure_witness:
  "length [WellObj (1::nat), Exc (OtherError ''boom'') :: (nat, string, unit) obj]
     = length (indices (index \<lparr>index = \<lparr>indices = [''A'', ''B''], fullpath = None\<rparr>,
          wells = [WellObj 10, WellObj 20], vars = Map.empty\<rparr>))
   \<and> (\<exists>r \<in> set [WellObj (1::nat), Exc (OtherError ''boom'') :: (nat, string, unit) obj].
          \<not> isinstance_SkipWellException r \<and> isinstance_Exception r)
   \<and> filter_assemble \<lparr>index = \<lparr>indices = [''A'', ''B''], fullpath = None\<rparr>,
          wells = [WellObj 10, WellObj 20], vars = Map.empty\<rparr>
        [WellObj (1::nat), Exc (OtherError ''boom'') :: (nat, string, unit) obj]
     = (Raised (RuntimeError ''Could not assemble the batch''),
        \<lparr>index = \<lparr>indices = [''A'', ''B''], fullpath = None\<rparr>,
          wells = [WellObj 10, WellObj 20], vars = Map.empty\<rparr>,
        [Exc (OtherError ''boom'')])"
proof -
  let ?b = "\<lparr>index = \<lparr>indices = [''A'', ''B''], fullpath = None\<rparr>,
          wells = [WellObj 10, WellObj 20], vars = Map.empty\<rparr> :: (string, nat, string, unit) well_batch"
  let ?rs = "[WellObj (1::nat), Exc (OtherError ''boom'') :: (nat, string, unit) obj]"
  have h1: "length ?rs = length (indices (index ?b))" by simp
  have h2: "\<exists>r \<in> set ?rs. \<not> isinstance_SkipWellException r \<and> isinstance_Exception r"
    by (simp add: isinstance_SkipWellException_def isinstance_Exception_def)
  show ?thesis
    using h1 h2 filter_assemble_fatal_failure [OF h1 h2]
    by (simp add: isinstance_SkipWellException_def isinstance_Exception_def)
qed

text \<open>
  Claim C2. When every result of a dispatch over the batch (one result per key) is a
  Skip, \<open>_filter_assemble\<close> raises \<open>SkipBatchException\<close>: it neither raises the hard
  error nor returns a batch, and it prints nothing and leaves the batch as it was.
\<close>

theorem filter_assemble_all_skip:
  fixes self :: "('k, 'w, 'e, 'a) well_batch"
  assumes "length results = length (indices (index self))"
    and "\<forall>r \<in> set results. isinstance_SkipWellException r"
  shows "filter_assemble self results = (Raised SkipBatchException, self, [])"
  using assms count_skips_all [of isinstance_SkipWellException results]
  by (simp add: filter_assemble_def Let_def batch_len_def)

theorem filter_assemble_all_skip_witness:
  "length [Exc SkipWellException, Exc SkipWellException :: (nat, string, unit) obj]
     = length (indices (index \<lparr>index = \<lparr>indices = [''A'', ''B''], fullpath = None\<rparr>,
          wells = [WellObj 10, WellObj 20], vars = Map.empty\<rparr>))
   \<and> isinstance_SkipWellException (Exc SkipWellException :: (nat, string, unit) obj)
   \<and> filter_assemble \<lparr>index = \<lparr>indices = [''A'', ''B''], fullpath = None\<rparr>,
          wells = [WellObj 10, WellObj 20], vars = Map.empty\<rparr>
        [Exc SkipWellException, Exc SkipWellException :: (nat, string, unit) obj]
     = (Raised SkipBatchException,
        \<lparr>index = \<lparr>indices = [''A'', ''B''], fullpath = None\<rparr>,
          wells = [WellObj 10, WellObj 20], vars = Map.empty\<rparr>,
        [])"
proof -
  let ?b = "\<lparr>index = \<lparr>indices = [''A'', ''B''], fullpath = None\<rparr>,
          wells = [WellObj 10, WellObj 20], vars = Map.empty\<rparr> :: (string, nat, string, unit) well_batch"
  let ?rs = "[Exc SkipWellException, Exc SkipWellException :: (nat, string, unit) obj]"
  have h1: "length ?rs = length (indices (index ?b))" by simp
  have h2: "\<forall>r \<in> set ?rs. isinstance_SkipWellException r"
    by (simp add: isinstance_SkipWellException_def)
  show ?thesis
    using h1 filter_assemble_all_skip [OF h1 h2]
    by (simp add: isinstance_SkipWellException_def)
qed

text \<open>
  Claim C3. When the results of a dispatch over the batch (one result per key) hold at
  least one result that is not a Skip and no hard failure among those, \<open>_filter_assemble\<close>
  returns; the new Index holds exactly the keys whose result is not a Skip, in their
  original relative order, the \<open>wells\<close> component holds exactly the kept results in the
  same order (so key and result still correspond position by position), and every
  declared component is as long as the new Index.
\<close>

theorem filter_assemble_keeps_non_skipped:
  fixes self :: "('k, 'w, 'e, 'a) well_batch"
  assumes "length results = length (indices (index self))"
    and "\<exists>r \<in> set results. \<not> isinstance_SkipWellException r"
    and "\<forall>r \<in> set results. \<not> isinstance_SkipWellException r \<longrightarrow> \<not> isinstance_Exception r"
  shows "\<exists>self'. filter_assemble self results = (Returned, self', [])
           \<and> zip (indices (index self')) (wells self')
               = filter (\<lambda>p. \<not> isinstance_SkipWellException (snd p)) (zip (indices (index self)) results)
           \<and> subseq (indices (index self')) (indices (index self))
           \<and> wells self' = filter (\<lambda>r. \<not> isinstance_SkipWellException r) results
           \<and> length (indices (index self')) = length (wells self')
           \<and> (\<forall>c \<in> set components. component_len self' c = Some (length (indices (index self'))))"
proof -
  let ?P = "isinstance_SkipWellException :: ('w, 'e, 'a) obj \<Rightarrow> bool"
  let ?ks = "indices (index self)"
  let ?m = "map Not (map ?P results)"
  have m: "?m = map (\<lambda>r. \<not> ?P r) results" by simp
  from assms(2) have not_all: "\<not> (\<forall>r \<in> set results. ?P r)" by blast
  then have cnt: "length (filter id (map ?P results)) \<noteq> batch_len self"
    using count_skips_all [of ?P results] assms(1) by (simp add: batch_len_def)
  from assms(2) have ne: "results \<noteq> []" by auto
  have kept: "boolean_index results ?m = filter (\<lambda>x. \<not> ?P x) results"
    unfolding m by (rule boolean_index_filter)
  have ok: "\<not> any_action_failed (filter (\<lambda>x. \<not> ?P x) results)"
    using assms(3) by (auto simp: any_action_failed_def list_ex_iff)
  define self' where "self' = self\<lparr>index := create_subset (index self) (boolean_index ?ks ?m),
     wells := boolean_index results ?m\<rparr>"
  have run: "filter_assemble self results = (Returned, self', [])"
    using cnt ne ok assms(1) kept by (simp add: filter_assemble_def Let_def self'_def)
  have idx: "indices (index self') = boolean_index ?ks ?m"
    by (simp add: self'_def create_subset_def)
  have w: "wells self' = boolean_index results ?m"
    by (simp add: self'_def)
  have z: "zip (indices (index self')) (wells self')
      = filter (\<lambda>p. \<not> ?P (snd p)) (zip ?ks results)"
    unfolding idx w m using assms(1) by (intro boolean_index_zip) simp
  have l: "length (indices (index self')) = length (wells self')"
    unfolding idx w m using assms(1) by (intro boolean_index_length) simp
  have s: "subseq (indices (index self')) ?ks"
    unfolding idx by (rule boolean_index_subseq)
  have c: "\<forall>c \<in> set components. component_len self' c = Some (length (indices (index self')))"
    using l by (simp add: components_def component_len_def)
  from run z s w kept l c show ?thesis by auto
qed

theorem filter_assemble_keeps_non_skipped_witness:
  "length [Exc SkipWellException, WellObj (5::nat), WellObj 7 :: (nat, string, unit) obj]
     = length (indices (index \<lparr>index = \<lparr>indices = [''A'', ''B'', ''C''], fullpath = None\<rparr>,
          wells = [WellObj 1, WellObj 2, WellObj 3], vars = Map.empty\<rparr>))
   \<and> (\<exists>r \<in> set [Exc SkipWellException, WellObj (5::nat), WellObj 7 :: (nat, string, unit) obj].
          \<not> isinstance_SkipWellException r)
   \<and> \<not> isinstance_Exception (WellObj 5 :: (nat, string, unit) obj)
   \<and> \<not> isinstance_Exception (WellObj 7 :: (nat, string, unit) obj)
   \<and> (\<exists>self'. filter_assemble \<lparr>index = \<lparr>indices = [''A'', ''B'', ''C''], fullpath = None\<rparr>,
          wells = [WellObj 1, WellObj 2, WellObj 3], vars = Map.empty\<rparr>
          [Exc SkipWellException, WellObj (5::nat), WellObj 7 :: (nat, string, unit) obj]
            = (Returned, self', [])
        \<and> indices (index self') = [''B'', ''C'']
        \<and> wells self' = [WellObj 5, WellObj 7])"
proof -
  let ?b = "\<lparr>index = \<lparr>indices = [''A'', ''B'', ''C''], fullpath = None\<rparr>,
          wells = [WellObj 1, WellObj 2, WellObj 3], vars = Map.empty\<rparr> :: (string, nat, string, unit) well_batch"
  let ?rs = "[Exc SkipWellException, WellObj (5::nat), WellObj 7 :: (nat, string, unit) obj]"
  have h1: "length ?rs = length (indices (index ?b))" by simp
  have h2: "\<exists>r \<in> set ?rs. \<not> isinstance_SkipWellException r"
    by (simp add: isinstance_SkipWellException_def)
  have h3: "\<forall>r \<in> set ?rs. \<not> isinstance_SkipWellException r \<longrightarrow> \<not> isinstance_Exception r"
    by (simp add: isinstance_SkipWellException_def isinstance_Exception_def)
  from filter_assemble_keeps_non_skipped [OF h1 h2 h3]
  obtain self' where run: "filter_assemble ?b ?rs = (Returned, self', [])"
    and z: "zip (indices (index self')) (wells self')
               = filter (\<lambda>p. \<not> isinstance_SkipWellException (snd p)) (zip (indices (index ?b)) ?rs)"
    and l: "length (indices (index self')) = length (wells self')"
    by blast
  from z have "zip (indices (index self')) (wells self') = [(''B'', WellObj 5), (''C'', WellObj 7)]"
    by (simp add: isinstance_SkipWellException_def)
  then have "map fst (zip (indices (index self')) (wells self')) = [''B'', ''C'']"
    and "map snd (zip (indices (index self')) (wells self')) = [WellObj 5, WellObj 7]"
    by simp_all
  with l have "indices (index self') = [''B'', ''C'']" "wells self' = [WellObj 5, WellObj 7]"
    by simp_all
  with run h1 h2 show ?thesis by (auto simp: isinstance_Exception_def)
qed

section \<open>Loading attributes: the claim\<close>

text \<open>
  Claim C7. When \<open>src\<close> and \<open>dst\<close> of \<open>get_crops\<close> list different numbers of names, the
  call raises a \<open>ValueError\<close> whose message gives both lengths, whatever the wells, their
  segments and their attributes are (none of them is looked at), and the batch is left
  as it was: no pair of a shorter, truncated list is processed.
\<close>

theorem get_crops_length_mismatch:
  assumes "length (to_list src) \<noteq> length (to_list dst)"
  shows "get_crops iter_level getattr_segment self src dst =
           (Raised (ValueError (lengths_message (length (to_list src)) (length (to_list dst)))), self)"
  using assms by (simp add: get_crops_def Let_def)

theorem get_crops_length_mismatch_witness:
  "length (to_list (Iter [''depth'', ''logs''])) \<noteq> length (to_list (Str ''crops''))
   \<and> get_crops (\<lambda>w::nat. [w, w + 1]) (\<lambda>(seg::nat) name. Some seg)
        \<lparr>index = \<lparr>indices = [''A''], fullpath = None\<rparr>,
          wells = [WellObj 10 :: (nat, unit, nat) obj], vars = Map.empty\<rparr>
        (Iter [''depth'', ''logs'']) (Str ''crops'')
     = (Raised (ValueError
          (CHR 0x27 # ''src'' @ CHR 0x27 # '' and '' @ CHR 0x27 # ''dst'' @ CHR 0x27 #
           '' must be of the same length but 2 and 1 were given'')),
        \<lparr>index = \<lparr>indices = [''A''], fullpath = None\<rparr>,
          wells = [WellObj 10], vars = Map.empty\<rparr>)"
proof -
  have h: "length (to_list (Iter [''depth'', ''logs''])) \<noteq> length (to_list (Str ''crops''))"
    by (simp add: to_list_def)
  show ?thesis
    using h get_crops_length_mismatch [OF h]
    by (simp add: to_list_def lengths_message_def str_nat.simps)
qed

section \<open>The delegating metaclass: the claim\<close>

lemma bind_methods_result:
  fixes namespace :: "string \<rightharpoonup> 'm attr"
  assumes "namespace ''targets'' = Some (Targets targets)"
    and "\<forall>m \<in> set ms. namespace m = None \<longrightarrow> Well m \<noteq> None"
  shows "\<exists>ns'. bind_methods Well name namespace ms = (Inr ns' :: 'e pyexc + _)
           \<and> (\<forall>m. ns' m =
                 (if m \<in> set ms \<and> namespace m = None
                  then Some (make_parallel_action m
                               (case targets name of None \<Rightarrow> ''threads'' | Some t \<Rightarrow> t))
                  else namespace m))"
  using assms
proof (induction ms arbitrary: namespace)
  case Nil
  then show ?case by simp
next
  case (Cons m ms)
  show ?case
  proof (cases "namespace m")
    case (Some a)
    from Cons.prems(2) have "\<forall>m' \<in> set ms. namespace m' = None \<longrightarrow> Well m' \<noteq> None" by simp
    from Cons.IH [OF Cons.prems(1) this] Some show ?thesis by auto
  next
    case None
    with Cons.prems(1) have neq: "m \<noteq> ''targets''" by auto
    from None Cons.prems(2) obtain f where f: "Well m = Some f" by auto
    let ?tgt = "case targets name of None \<Rightarrow> ''threads'' | Some t \<Rightarrow> t"
    let ?ns1 = "namespace(m \<mapsto> make_parallel_action m ?tgt)"
    have t1: "?ns1 ''targets'' = Some (Targets targets)"
      using neq Cons.prems(1) by simp
    have w1: "\<forall>m' \<in> set ms. ?ns1 m' = None \<longrightarrow> Well m' \<noteq> None"
      using Cons.prems(2) by (auto split: if_splits)
    from Cons.IH [OF t1 w1] obtain ns' where
      run: "bind_methods Well name ?ns1 ms = (Inr ns' :: 'e pyexc + _)" and
      eq: "\<forall>x. ns' x = (if x \<in> set ms \<and> ?ns1 x = None then Some (make_parallel_action x ?tgt) else ?ns1 x)"
      by blast
    have "bind_methods Well name namespace (m # ms) = (Inr ns' :: 'e pyexc + _)"
      using None Cons.prems(1) f run by simp
    moreover have "\<forall>x. ns' x = (if x \<in> set (m # ms) \<and> namespace x = None
        then Some (make_parallel_action x ?tgt) else namespace x)"
      using eq None by auto
    ultimately show ?thesis by blast
  qed
qed

text \<open>
  Claim C4. For a class body that holds \<open>targets\<close> and a \<open>Well\<close> class that has every
  abstract method the body leaves out, \<open>WellDelegatingMeta.__new__\<close> succeeds, and in the
  namespace the class is created from: every abstract method name the body does not
  define is bound to an action decorated with \<open>init="indices"\<close>,
  \<open>post="_filter_assemble"\<close> and the target configured for the class name (threads by
  default), and calling it for the key at position \<open>pos\<close> gives what \<open>Well\<close>'s method of
  the same name gives on \<open>wells[pos]\<close> with the forwarded arguments; a name the body
  defines keeps its own definition, which is what runs; and nothing else changes.
\<close>

theorem delegation_binder:
  fixes Well :: "string \<Rightarrow> (('w, 'e, 'a) obj \<Rightarrow> 'args \<Rightarrow> 'e pyexc + ('w, 'e, 'a) obj) option"
    and namespace :: "string \<rightharpoonup> (('k, 'w, 'e, 'a) well_batch \<Rightarrow> 'k \<Rightarrow> 'args \<Rightarrow> 'e pyexc + ('w, 'e, 'a) obj) attr"
  assumes "namespace ''targets'' = Some (Targets targets)"
    and "\<forall>m \<in> set (abstract_methods bases). namespace m = None \<longrightarrow> Well m \<noteq> None"
  shows "\<exists>ns'. meta_new Well name bases namespace = (Inr ns' :: 'e pyexc + _)
     \<and> (\<forall>m. m \<in> set (abstract_methods bases) \<and> namespace m = None \<longrightarrow>
            ns' m = Some (Delegated
                \<lparr>init = ''indices'', post = Some ''_filter_assemble'',
                 target = (case targets name of None \<Rightarrow> ''threads'' | Some t \<Rightarrow> t)\<rparr> m)
          \<and> (\<forall>self ix pos f args.
                index_get_pos (indices (index self)) ix = Some pos \<and> pos < length (wells self)
                  \<and> Well m = Some f \<longrightarrow>
                (\<forall>a. ns' m = Some a \<longrightarrow> call_item Well a self ix args = f (wells self ! pos) args)))
     \<and> (\<forall>m g. namespace m = Some (Defined g) \<longrightarrow>
            ns' m = Some (Defined g) \<and> (\<forall>self ix args. call_item Well (Defined g) self ix args = g self ix args))
     \<and> (\<forall>m. namespace m \<noteq> None \<or> m \<notin> set (abstract_methods bases) \<longrightarrow> ns' m = namespace m)"
proof -
  from bind_methods_result [OF assms, of name] obtain ns' where
    run: "bind_methods Well name namespace (abstract_methods bases) = (Inr ns' :: 'e pyexc + _)" and
    eq: "\<forall>m. ns' m = (if m \<in> set (abstract_methods bases) \<and> namespace m = None
          then Some (make_parallel_action m (case targets name of None \<Rightarrow> ''threads'' | Some t \<Rightarrow> t))
          else namespace m)"
    by blast
  have "meta_new Well name bases namespace = (Inr ns' :: 'e pyexc + _)"
    using run by (simp add: meta_new_def)
  moreover have "\<forall>m. m \<in> set (abstract_methods bases) \<and> namespace m = None \<longrightarrow>
            ns' m = Some (Delegated
                \<lparr>init = ''indices'', post = Some ''_filter_assemble'',
                 target = (case targets name of None \<Rightarrow> ''threads'' | Some t \<Rightarrow> t)\<rparr> m)
          \<and> (\<forall>self ix pos f args.
                index_get_pos (indices (index self)) ix = Some pos \<and> pos < length (wells self)
                  \<and> Well m = Some f \<longrightarrow>
                (\<forall>a. ns' m = Some a \<longrightarrow> call_item Well a self ix args = f (wells self ! pos) args))"
    using eq by (auto simp: make_parallel_action_def call_item_def delegator_def get_pos_def)
  moreover have "\<forall>m g. namespace m = Some (Defined g) \<longrightarrow>
            ns' m = Some (Defined g) \<and> (\<forall>self ix args. call_item Well (Defined g) self ix args = g self ix args)"
    using eq by (auto simp: call_item_def)
  moreover have "\<forall>m. namespace m \<noteq> None \<or> m \<notin> set (abstract_methods bases) \<longrightarrow> ns' m = namespace m"
    using eq by auto
  ultimately show ?thesis by blast
qed

theorem delegation_binder_witness:
  "[''targets'' \<mapsto> Targets Map.empty, ''load'' \<mapsto> Defined (\<lambda>(self :: (string, nat, unit, unit) well_batch) (ix :: string) (args::nat). (Inr PyNone :: unit pyexc + (nat, unit, unit) obj))] ''targets''
      = Some (Targets Map.empty)
   \<and> (\<exists>ns'. meta_new
          (\<lambda>n. if n = ''score'' then Some (\<lambda>(w :: (nat, unit, unit) obj) (args::nat). (Inr w :: unit pyexc + (nat, unit, unit) obj)) else None)
          ''WellBatch'' [None, Some [''score'', ''load'']]
          [''targets'' \<mapsto> Targets Map.empty,
           ''load'' \<mapsto> Defined (\<lambda>(self :: (string, nat, unit, unit) well_batch) (ix :: string) (args::nat). (Inr PyNone :: unit pyexc + (nat, unit, unit) obj))]
          = (Inr ns' :: unit pyexc + _)
        \<and> ns' ''score'' = Some (Delegated
             \<lparr>init = ''indices'', post = Some ''_filter_assemble'', target = ''threads''\<rparr> ''score'')
        \<and> ns' ''load'' = Some (Defined (\<lambda>self ix args. Inr PyNone))
        \<and> (call_item
                (\<lambda>n. if n = ''score'' then Some (\<lambda>(w :: (nat, unit, unit) obj) (args::nat). (Inr w :: unit pyexc + (nat, unit, unit) obj)) else None)
                (Delegated \<lparr>init = ''indices'', post = Some ''_filter_assemble'', target = ''threads''\<rparr> ''score'')
                \<lparr>index = \<lparr>indices = [''A'', ''B''], fullpath = None\<rparr>,
                   wells = [WellObj 10, WellObj 20], vars = Map.empty\<rparr> ''B'' 5
              = Inr (WellObj 20)))"
proof -
  let ?W = "\<lambda>n. if n = ''score'' then Some (\<lambda>(w :: (nat, unit, unit) obj) (args::nat). (Inr w :: unit pyexc + (nat, unit, unit) obj)) else None"
  let ?g = "\<lambda>(self :: (string, nat, unit, unit) well_batch) (ix :: string) (args::nat).
      (Inr PyNone :: unit pyexc + (nat, unit, unit) obj)"
  let ?ns = "[''targets'' \<mapsto> Targets Map.empty, ''load'' \<mapsto> Defined ?g]"
  let ?bases = "[None, Some [''score'', ''load'']]"
  let ?b = "\<lparr>index = \<lparr>indices = [''A'', ''B''], fullpath = None\<rparr>,
       wells = [WellObj 10, WellObj 20], vars = Map.empty\<rparr> :: (string, nat, unit, unit) well_batch"
  have h1: "?ns ''targets'' = Some (Targets Map.empty)" by simp
  have h2: "\<forall>m \<in> set (abstract_methods ?bases). ?ns m = None \<longrightarrow> ?W m \<noteq> None"
    by (simp add: abstract_methods_def)
  from delegation_binder [OF h1 h2, of "''WellBatch''"] obtain ns' where
    run: "meta_new ?W ''WellBatch'' ?bases ?ns = (Inr ns' :: unit pyexc + _)" and
    syn: "\<forall>m. m \<in> set (abstract_methods ?bases) \<and> ?ns m = None \<longrightarrow>
            ns' m = Some (Delegated
                \<lparr>init = ''indices'', post = Some ''_filter_assemble'',
                 target = (case Map.empty ''WellBatch'' of None \<Rightarrow> ''threads'' | Some t \<Rightarrow> t)\<rparr> m)
          \<and> (\<forall>(self :: (string, nat, unit, unit) well_batch) (ix :: string) pos f (args :: nat).
                index_get_pos (indices (index self)) ix = Some pos \<and> pos < length (wells self)
                  \<and> ?W m = Some f \<longrightarrow>
                (\<forall>a. ns' m = Some a \<longrightarrow> call_item ?W a self ix args = f (wells self ! pos) args))" and
    own: "\<forall>m g. ?ns m = Some (Defined g) \<longrightarrow> ns' m = Some (Defined g)
          \<and> (\<forall>(self :: (string, nat, unit, unit) well_batch) (ix :: string) (args :: nat).
                call_item ?W (Defined g) self ix args = g self ix args)"
    by blast
  have s: "''score'' \<in> set (abstract_methods ?bases) \<and> ?ns ''score'' = None"
    by (simp add: abstract_methods_def)
  from syn s have a: "ns' ''score'' = Some (Delegated
      \<lparr>init = ''indices'', post = Some ''_filter_assemble'', target = ''threads''\<rparr> ''score'')"
    by simp
  from syn s have "\<forall>(self :: (string, nat, unit, unit) well_batch) (ix :: string) pos f (args :: nat).
                index_get_pos (indices (index self)) ix = Some pos \<and> pos < length (wells self)
                  \<and> ?W ''score'' = Some f \<longrightarrow>
                (\<forall>a. ns' ''score'' = Some a \<longrightarrow> call_item ?W a self ix args = f (wells self ! pos) args)"
    by blast
  then have "index_get_pos (indices (index ?b)) ''B'' = Some 1 \<and> 1 < length (wells ?b)
                  \<and> ?W ''score'' = Some (\<lambda>w args. Inr w) \<longrightarrow>
                (\<forall>a. ns' ''score'' = Some a \<longrightarrow> call_item ?W a ?b ''B'' 5 = (\<lambda>w args. Inr w) (wells ?b ! 1) 5)"
    by blast
  then have c: "\<forall>a. ns' ''score'' = Some a \<longrightarrow> call_item ?W a ?b ''B'' 5 = Inr (WellObj 20)"
    by simp
  have "?ns ''load'' = Some (Defined ?g)" by simp
  with own have l: "ns' ''load'' = Some (Defined ?g)" by blast
  from a c have c': "call_item ?W
      (Delegated \<lparr>init = ''indices'', post = Some ''_filter_assemble'', target = ''threads''\<rparr> ''score'')
      ?b ''B'' 5 = Inr (WellObj 20)"
    by blast
  from h1 run a l c' show ?thesis by blast
qed

section \<open>Worker initialization: the claim\<close>

lemma index_get_pos_Some:
  "index_get_pos xs k = Some p \<Longrightarrow> p < length xs \<and> xs ! p = k"
  by (induction xs arbitrary: p) (auto split: if_splits)

lemma index_get_pos_mem:
  "k \<in> set xs \<Longrightarrow> \<exists>p. index_get_pos xs k = Some p"
  by (induction xs) auto

lemma index_get_pos_nth:
  "distinct xs \<Longrightarrow> i < length xs \<Longrightarrow> index_get_pos xs (xs ! i) = Some i"
proof (induction xs arbitrary: i)
  case Nil
  then show ?case by simp
next
  case (Cons x xs)
  then show ?case by (cases i) auto
qed

lemma init_wells_effect:
  fixes self :: "('k, 'w, 'e, 'a) well_batch"
  assumes "index_get_pos (indices (index self)) k = Some p"
    and "length (wells self) = length (indices (index self))"
  shows "init_wells Well src kwargs self k =
           (case construct_well Well src kwargs (index self) k of
              Inl e \<Rightarrow> (Inl e, self)
            | Inr w \<Rightarrow> (Inr PyNone, self\<lparr>wells := (wells self)[p := WellObj w]\<rparr>))"
  using assms index_get_pos_Some [OF assms(1)]
  by (simp add: init_wells_def get_pos_def split: sum.splits)

lemma dispatch_init_wells:
  fixes self :: "('k, 'w, 'e, 'a) well_batch"
  assumes "set ks \<subseteq> set (indices (index self))"
    and "distinct ks"
    and "length (wells self) = length (indices (index self))"
    and "dispatch (init_wells Well src kwargs) self ks = (rs, self')"
  shows "index self' = index self \<and> vars self' = vars self
     \<and> length (wells self') = length (wells self) \<and> length rs = length ks
     \<and> (\<forall>j < length ks.
           rs ! j = (case construct_well Well src kwargs (index self) (ks ! j) of
                       Inl e \<Rightarrow> Exc e | Inr w \<Rightarrow> PyNone))
     \<and> (\<forall>k \<in> set ks. \<forall>p. index_get_pos (indices (index self)) k = Some p \<longrightarrow>
           wells self' ! p = (case construct_well Well src kwargs (index self) k of
                                Inl e \<Rightarrow> wells self ! p | Inr w \<Rightarrow> WellObj w))
     \<and> (\<forall>p. (\<forall>k \<in> set ks. index_get_pos (indices (index self)) k \<noteq> Some p) \<longrightarrow>
           wells self' ! p = wells self ! p)"
  using assms
proof (induction ks arbitrary: self rs)
  case Nil
  then show ?case by auto
next
  case (Cons k ks)
  let ?idx = "indices (index self)"
  let ?c = "construct_well Well src kwargs (index self)"
  from Cons.prems(1) obtain p where p: "index_get_pos ?idx k = Some p"
    using index_get_pos_mem [of k ?idx] by auto
  from index_get_pos_Some [OF p] have plt: "p < length ?idx" and pk: "?idx ! p = k" by simp_all
  define self1 where "self1 = snd (init_wells Well src kwargs self k)"
  define r where "r = fst (init_wells Well src kwargs self k)"
  have step: "init_wells Well src kwargs self k = (r, self1)"
    by (simp add: r_def self1_def)
  have eff: "(r, self1) = (case ?c k of Inl e \<Rightarrow> (Inl e, self)
                | Inr w \<Rightarrow> (Inr PyNone, self\<lparr>wells := (wells self)[p := WellObj w]\<rparr>))"
    using init_wells_effect [OF p Cons.prems(3), of Well src kwargs] step by simp
  have idx1: "index self1 = index self" and vars1: "vars self1 = vars self"
    and len1: "length (wells self1) = length (wells self)"
    using eff by (auto split: sum.splits)
  have r_eq: "(case r of Inl e \<Rightarrow> Exc e | Inr v \<Rightarrow> v) = (case ?c k of Inl e \<Rightarrow> Exc e | Inr w \<Rightarrow> PyNone)"
    using eff by (auto split: sum.splits)
  have w1p: "wells self1 ! p = (case ?c k of Inl e \<Rightarrow> wells self ! p | Inr w \<Rightarrow> WellObj w)"
    using eff plt Cons.prems(3) by (auto split: sum.splits)
  have w1q: "\<And>q. q \<noteq> p \<Longrightarrow> wells self1 ! q = wells self ! q"
    using eff by (auto split: sum.splits)
  obtain rs' where rs': "dispatch (init_wells Well src kwargs) self1 ks = (rs', self')"
    and rs: "rs = (case r of Inl e \<Rightarrow> Exc e | Inr v \<Rightarrow> v) # rs'"
    using Cons.prems(4) step by (auto split: prod.splits)
  have IH: "index self' = index self1 \<and> vars self' = vars self1
     \<and> length (wells self') = length (wells self1) \<and> length rs' = length ks
     \<and> (\<forall>j < length ks.
           rs' ! j = (case construct_well Well src kwargs (index self1) (ks ! j) of
                       Inl e \<Rightarrow> Exc e | Inr w \<Rightarrow> PyNone))
     \<and> (\<forall>k \<in> set ks. \<forall>p. index_get_pos (indices (index self1)) k = Some p \<longrightarrow>
           wells self' ! p = (case construct_well Well src kwargs (index self1) k of
                                Inl e \<Rightarrow> wells self1 ! p | Inr w \<Rightarrow> WellObj w))
     \<and> (\<forall>p. (\<forall>k \<in> set ks. index_get_pos (indices (index self1)) k \<noteq> Some p) \<longrightarrow>
           wells self' ! p = wells self1 ! p)"
    using Cons.IH [of self1 rs'] Cons.prems(1,2,3) idx1 len1 rs' by simp
  have notin: "k \<notin> set ks" using Cons.prems(2) by simp
  have others: "\<And>k' q. k' \<in> set ks \<Longrightarrow> index_get_pos ?idx k' = Some q \<Longrightarrow> q \<noteq> p"
    using notin pk index_get_pos_Some by fastforce
  have A: "index self' = index self \<and> vars self' = vars self
     \<and> length (wells self') = length (wells self) \<and> length rs = length (k # ks)"
    using IH idx1 vars1 len1 rs by simp
  have B: "\<forall>j < length (k # ks). rs ! j = (case ?c ((k # ks) ! j) of Inl e \<Rightarrow> Exc e | Inr w \<Rightarrow> PyNone)"
  proof (intro allI impI)
    fix j assume "j < length (k # ks)"
    then show "rs ! j = (case ?c ((k # ks) ! j) of Inl e \<Rightarrow> Exc e | Inr w \<Rightarrow> PyNone)"
      using IH rs r_eq idx1 by (cases j) auto
  qed
  have C: "\<forall>k' \<in> set (k # ks). \<forall>q. index_get_pos ?idx k' = Some q \<longrightarrow>
           wells self' ! q = (case ?c k' of Inl e \<Rightarrow> wells self ! q | Inr w \<Rightarrow> WellObj w)"
  proof (intro ballI allI impI)
    fix k' q assume k': "k' \<in> set (k # ks)" and q: "index_get_pos ?idx k' = Some q"
    show "wells self' ! q = (case ?c k' of Inl e \<Rightarrow> wells self ! q | Inr w \<Rightarrow> WellObj w)"
    proof (cases "k' = k")
      case True
      with q p have qp: "q = p" by simp
      have "\<forall>k'' \<in> set ks. index_get_pos (indices (index self1)) k'' \<noteq> Some p"
        using others idx1 by auto
      with IH have "wells self' ! p = wells self1 ! p" by blast
      with w1p show ?thesis unfolding qp True by simp
    next
      case False
      with k' have in_ks: "k' \<in> set ks" by simp
      from others [OF in_ks q] have "q \<noteq> p" .
      with IH in_ks q idx1 w1q [of q] show ?thesis
        by (auto split: sum.splits)
    qed
  qed
  have D: "\<forall>q. (\<forall>k' \<in> set (k # ks). index_get_pos ?idx k' \<noteq> Some q) \<longrightarrow>
           wells self' ! q = wells self ! q"
  proof (intro allI impI)
    fix q assume h: "\<forall>k' \<in> set (k # ks). index_get_pos ?idx k' \<noteq> Some q"
    then have "q \<noteq> p" using p by auto
    moreover from h have "\<forall>k' \<in> set ks. index_get_pos (indices (index self1)) k' \<noteq> Some q"
      using idx1 by simp
    ultimately show "wells self' ! q = wells self ! q"
      using IH w1q [of q] by auto
  qed
  from A B C D show ?case by blast
qed

text \<open>
  Claim C5, as the code has it. \<open>_init_wells\<close> is dispatched with no post step, so it
  is not a filtering assembly. For an Index of distinct keys the construction ends in
  one of two ways. When the worker construction of any item raises, the Skip signal
  included, the construction raises \<open>RuntimeError("Parallel action failed")\<close> and
  reports every exception the items raised; the Index still holds every key, so no item
  was dropped. When every worker construction succeeds, the construction returns a batch
  with the Index it was given and the workers in \<open>wells\<close>, one per key in Index order.
\<close>

theorem init_wells_aborts_on_any_failure:
  fixes Well :: "string \<Rightarrow> 'kw \<Rightarrow> 'e pyexc + 'w"
  assumes "distinct (indices idx)"
    and "init_well_batch Well idx src kwargs
           = (out, (self' :: ('k, 'w, 'e, 'a) well_batch), reported)"
  shows "index self' = idx
     \<and> wells self' = map (\<lambda>k. case construct_well Well src kwargs idx k of
                                  Inl e \<Rightarrow> PyNone | Inr w \<Rightarrow> WellObj w) (indices idx)
     \<and> (if \<exists>k \<in> set (indices idx). \<exists>e. construct_well Well src kwargs idx k = Inl e
         then out = Raised (RuntimeError ''Parallel action failed'')
              \<and> reported = map Exc (concat (map (\<lambda>k. case construct_well Well src kwargs idx k of
                                                      Inl e \<Rightarrow> [e] | Inr w \<Rightarrow> []) (indices idx)))
         else out = Returned \<and> reported = [])"
proof -
  let ?self = "\<lparr>index = idx, wells = replicate (length (indices idx)) PyNone, vars = Map.empty\<rparr>
      :: ('k, 'w, 'e, 'a) well_batch"
  let ?c = "construct_well Well src kwargs idx"
  let ?ks = "indices idx"
  obtain results s1 where run: "dispatch (init_wells Well src kwargs) ?self ?ks = (results, s1)"
    by (cases "dispatch (init_wells Well src kwargs) ?self ?ks") auto
  have fin: "call_post init_wells_decoration s1 results = (out, self', reported)"
    using assms(2) run by (simp add: init_well_batch_def Let_def)
  have pre: "set ?ks \<subseteq> set (indices (index ?self))"
    "length (wells ?self) = length (indices (index ?self))"
    by simp_all
  note d = dispatch_init_wells [OF pre(1) assms(1) pre(2) run]
  have i1: "index s1 = idx" and l1: "length (wells s1) = length ?ks"
    and lr: "length results = length ?ks"
    using d by simp_all
  have res: "results = map (\<lambda>k. case ?c k of Inl e \<Rightarrow> Exc e | Inr w \<Rightarrow> PyNone) ?ks"
  proof (rule nth_equalityI)
    show "length results = length (map (\<lambda>k. case ?c k of Inl e \<Rightarrow> Exc e | Inr w \<Rightarrow> PyNone) ?ks)"
      using lr by simp
  next
    fix i assume "i < length results"
    with lr have i: "i < length ?ks" by simp
    with d have "results ! i = (case ?c (?ks ! i) of Inl e \<Rightarrow> Exc e | Inr w \<Rightarrow> PyNone)"
      by simp
    with i show "results ! i = map (\<lambda>k. case ?c k of Inl e \<Rightarrow> Exc e | Inr w \<Rightarrow> PyNone) ?ks ! i"
      by simp
  qed
  have w1: "wells s1 = map (\<lambda>k. case ?c k of Inl e \<Rightarrow> PyNone | Inr w \<Rightarrow> WellObj w) ?ks"
  proof (rule nth_equalityI)
    show "length (wells s1) = length (map (\<lambda>k. case ?c k of Inl e \<Rightarrow> PyNone | Inr w \<Rightarrow> WellObj w) ?ks)"
      using l1 by simp
  next
    fix i assume "i < length (wells s1)"
    with l1 have i: "i < length ?ks" by simp
    have pos: "index_get_pos ?ks (?ks ! i) = Some i"
      using index_get_pos_nth [OF assms(1) i] .
    from d have "\<forall>k \<in> set ?ks. \<forall>p. index_get_pos ?ks k = Some p \<longrightarrow>
           wells s1 ! p = (case ?c k of Inl e \<Rightarrow> wells ?self ! p | Inr w \<Rightarrow> WellObj w)"
      by simp
    with pos i have "wells s1 ! i = (case ?c (?ks ! i) of Inl e \<Rightarrow> wells ?self ! i | Inr w \<Rightarrow> WellObj w)"
      by (metis nth_mem)
    with i show "wells s1 ! i = map (\<lambda>k. case ?c k of Inl e \<Rightarrow> PyNone | Inr w \<Rightarrow> WellObj w) ?ks ! i"
      by (auto split: sum.splits)
  qed
  have each: "isinstance_Exception (case ?c k of Inl e \<Rightarrow> Exc e | Inr w \<Rightarrow> (PyNone :: ('w, 'e, 'a) obj))
      \<longleftrightarrow> (\<exists>e. ?c k = Inl e)" for k
    by (cases "?c k") (simp_all add: isinstance_Exception_def)
  have failed: "any_action_failed results \<longleftrightarrow> (\<exists>k \<in> set ?ks. \<exists>e. ?c k = Inl e)"
    unfolding res by (simp add: any_action_failed_def list_ex_iff each)
  have errs: "get_errors (map (\<lambda>k. case ?c k of Inl e \<Rightarrow> Exc e | Inr w \<Rightarrow> PyNone) ks)
      = map Exc (concat (map (\<lambda>k. case ?c k of Inl e \<Rightarrow> [e] | Inr w \<Rightarrow> []) ks))" for ks
    by (induction ks) (auto simp: get_errors_def isinstance_Exception_def split: sum.splits)
  have same: "self' = s1"
    using fin by (auto simp: call_post_def init_wells_decoration_def split: if_splits)
  show ?thesis
  proof (cases "\<exists>k \<in> set ?ks. \<exists>e. ?c k = Inl e")
    case True
    with failed fin have "out = Raised (RuntimeError ''Parallel action failed'')"
      "reported = get_errors results"
      by (simp_all add: call_post_def init_wells_decoration_def)
    with True same i1 w1 errs [of ?ks] res show ?thesis by simp
  next
    case False
    with failed fin have "out = Returned" "reported = []"
      by (simp_all add: call_post_def init_wells_decoration_def)
    with False same i1 w1 show ?thesis by simp
  qed
qed

theorem init_wells_aborts_on_any_failure_witness:
  "distinct (indices \<lparr>indices = [''A'', ''B''], fullpath = None\<rparr>)
   \<and> init_well_batch
       (\<lambda>path (kwargs::unit). if path = ''a.las'' then Inl (OtherError ''unreadable'') else Inr (7::nat))
       \<lparr>indices = [''A'', ''B''], fullpath = None\<rparr>
       (Some [''A'' \<mapsto> ''a.las'', ''B'' \<mapsto> ''b.las'']) ()
     = (Raised (RuntimeError ''Parallel action failed''),
        \<lparr>index = \<lparr>indices = [''A'', ''B''], fullpath = None\<rparr>,
         wells = [PyNone, WellObj 7 :: (nat, string, unit) obj], vars = Map.empty\<rparr>,
        [Exc (OtherError ''unreadable'')])
   \<and> init_well_batch
       (\<lambda>path (kwargs::unit). if path = ''a.las'' then Inr 5 else Inr (7::nat))
       \<lparr>indices = [''A'', ''B''], fullpath = None\<rparr>
       (Some [''A'' \<mapsto> ''a.las'', ''B'' \<mapsto> ''b.las'']) ()
     = ((Returned :: string outcome),
        \<lparr>index = \<lparr>indices = [''A'', ''B''], fullpath = None\<rparr>,
         wells = [WellObj 5, WellObj 7 :: (nat, string, unit) obj], vars = Map.empty\<rparr>,
        [])"
proof -
  let ?W = "\<lambda>path (kwargs::unit).
      if path = ''a.las'' then (Inl (OtherError ''unreadable'') :: string pyexc + nat) else Inr (7::nat)"
  let ?V = "\<lambda>path (kwargs::unit). if path = ''a.las'' then (Inr 5 :: string pyexc + nat) else Inr (7::nat)"
  let ?idx = "\<lparr>indices = [''A'', ''B''], fullpath = None\<rparr>"
  let ?src = "Some [''A'' \<mapsto> ''a.las'', ''B'' \<mapsto> ''b.las'']"
  let ?r = "init_well_batch ?W ?idx ?src () :: string outcome \<times> (string, nat, string, unit) well_batch \<times> _"
  let ?q = "init_well_batch ?V ?idx ?src () :: string outcome \<times> (string, nat, string, unit) well_batch \<times> _"
  have h1: "distinct (indices ?idx)" by simp
  have h2: "?r = (fst ?r, fst (snd ?r), snd (snd ?r))" by simp
  have h3: "?q = (fst ?q, fst (snd ?q), snd (snd ?q))" by simp
  note a = init_wells_aborts_on_any_failure [OF h1 h2]
  note b = init_wells_aborts_on_any_failure [OF h1 h3]
  have ra: "fst ?r = Raised (RuntimeError ''Parallel action failed'')"
    "snd (snd ?r) = [Exc (OtherError ''unreadable'')]"
    "index (fst (snd ?r)) = ?idx" "wells (fst (snd ?r)) = [PyNone, WellObj 7]"
    using a by (simp_all add: construct_well_def well_path_def)
  have va: "vars (fst (snd ?r)) = Map.empty"
    by (simp add: init_well_batch_def init_wells_def construct_well_def well_path_def get_pos_def
        call_post_def init_wells_decoration_def)
  have rb: "fst ?q = Returned" "snd (snd ?q) = []"
    "index (fst (snd ?q)) = ?idx" "wells (fst (snd ?q)) = [WellObj 5, WellObj 7]"
    using b by (simp_all add: construct_well_def well_path_def)
  have vb: "vars (fst (snd ?q)) = Map.empty"
    by (simp add: init_well_batch_def init_wells_def construct_well_def well_path_def get_pos_def
        call_post_def init_wells_decoration_def any_action_failed_def isinstance_Exception_def)
  have ea: "?r = (Raised (RuntimeError ''Parallel action failed''),
        \<lparr>index = ?idx, wells = [PyNone, WellObj 7], vars = Map.empty\<rparr>,
        [Exc (OtherError ''unreadable'')])"
    using ra va by (intro prod_eqI well_batch.equality) simp_all
  have eb: "?q = (Returned, \<lparr>index = ?idx, wells = [WellObj 5, WellObj 7], vars = Map.empty\<rparr>, [])"
    using rb vb by (intro prod_eqI well_batch.equality) simp_all
  from h1 ea eb show ?thesis by blast
qed

text \<open>
  Claim C5 as stated fails. Two keys, of which the first one's worker construction
  signals Skip: the claim says the item is dropped and the construction goes on with a
  batch of one item. In the code the construction raises
  \<open>RuntimeError("Parallel action failed")\<close>, reporting the Skip as a failure, and both
  keys are still in the Index when it does. The same results handed to the filtering
  assembly would have dropped the first key.
\<close>

theorem init_wells_skip_counterexample:
  "init_well_batch
       (\<lambda>path (kwargs::unit). if path = ''a.las'' then Inl SkipWellException else Inr (7::nat))
       \<lparr>indices = [''A'', ''B''], fullpath = None\<rparr>
       (Some [''A'' \<mapsto> ''a.las'', ''B'' \<mapsto> ''b.las'']) ()
     = ((Raised (RuntimeError ''Parallel action failed'') :: unit outcome),
        \<lparr>index = \<lparr>indices = [''A'', ''B''], fullpath = None\<rparr>,
         wells = [PyNone, WellObj 7 :: (nat, unit, unit) obj], vars = Map.empty\<rparr>,
        [Exc SkipWellException])
   \<and> indices (index (fst (snd (filter_assemble
         \<lparr>index = \<lparr>indices = [''A'', ''B''], fullpath = None\<rparr>,
          wells = [PyNone, WellObj 7 :: (nat, unit, unit) obj], vars = Map.empty\<rparr>
         [Exc SkipWellException, PyNone])))) = [''B'']"
  by (simp add: init_wells_decoration_def init_well_batch_def init_wells_def construct_well_def
      well_path_def get_pos_def call_post_def any_action_failed_def get_errors_def
      isinstance_Exception_def filter_assemble_def isinstance_SkipWellException_def
      batch_len_def boolean_index_def create_subset_def Let_def)

section \<open>Crops: the claims\<close>

lemma collect_map_Inr:
  "collect (map f xs) = Inr ys \<Longrightarrow>
   length ys = length xs \<and> (\<forall>i < length xs. f (xs ! i) = Inr (ys ! i))"
proof (induction xs arbitrary: ys)
  case Nil
  then show ?case by simp
next
  case (Cons x xs)
  from Cons.prems obtain y ys' where y: "f x = Inr y" and c: "collect (map f xs) = Inr ys'"
    and ys: "ys = y # ys'"
    by (cases "f x"; cases "collect (map f xs)") auto
  from Cons.IH [OF c] have IH: "length ys' = length xs" "\<forall>i < length xs. f (xs ! i) = Inr (ys' ! i)"
    by simp_all
  show ?case
  proof (intro conjI allI impI)
    show "length ys = length (x # xs)" using IH ys by simp
  next
    fix i assume "i < length (x # xs)"
    then show "f ((x # xs) ! i) = Inr (ys ! i)"
      using IH y ys by (cases i) auto
  qed
qed

lemma fold_min_le: "fold min rest (x::nat) \<le> x \<and> (\<forall>y \<in> set rest. fold min rest x \<le> y)"
proof (induction rest arbitrary: x)
  case Nil
  show ?case by simp
next
  case (Cons a rest)
  from Cons.IH [of "min a x"] show ?case by auto
qed

lemma image_length_bound:
  assumes "image_length images = (Inr L :: 'e pyexc + nat)"
  shows "images \<noteq> [] \<and>
         (\<forall>img \<in> set images. 2 \<le> length (shape img) \<and> L \<le> shape img ! (length (shape img) - 2))"
proof -
  from assms obtain lens where c: "collect (map (shape_m2 :: _ \<Rightarrow> 'e pyexc + nat) images) = Inr lens"
    and m: "py_min lens = (Inr L :: 'e pyexc + nat)"
    by (auto simp: image_length_def split: sum.splits)
  from collect_map_Inr [OF c] have len: "length lens = length images"
    and each: "\<forall>i < length images. (shape_m2 (images ! i) :: 'e pyexc + nat) = Inr (lens ! i)"
    by simp_all
  from m obtain x rest where lens: "lens = x # rest" and L: "L = fold min rest x"
    by (auto simp: py_min_def split: list.splits)
  from lens len have ne: "images \<noteq> []" by auto
  have le: "\<forall>y \<in> set lens. L \<le> y"
    using fold_min_le [of rest x] lens L by auto
  have "\<forall>img \<in> set images. 2 \<le> length (shape img) \<and> L \<le> shape img ! (length (shape img) - 2)"
  proof
    fix img assume "img \<in> set images"
    then obtain i where i: "i < length images" "images ! i = img"
      by (auto simp: in_set_conv_nth)
    with each have s: "(shape_m2 img :: 'e pyexc + nat) = Inr (lens ! i)" by auto
    from i len have "lens ! i \<in> set lens" by simp
    with le have "L \<le> lens ! i" by blast
    with s show "2 \<le> length (shape img) \<and> L \<le> shape img ! (length (shape img) - 2)"
      by (auto simp: shape_m2_def split: if_splits)
  qed
  with ne show ?thesis by blast
qed

lemma set_slices_aliased:
  assumes "2 \<le> length (store a)" and "j + length pos \<le> n"
  shows "set_slices store (replicate n a) j pos lgth =
           Inr (if pos = [] then store
                else store(a := (store a)[length (store a) - 2 :=
                                   Slice (Some (last pos)) (Some (last pos + lgth))]))"
  using assms
proof (induction pos arbitrary: store j)
  case Nil
  show ?case by simp
next
  case (Cons p rest)
  let ?k = "length (store a) - 2"
  let ?store1 = "store(a := (store a)[?k := Slice (Some p) (Some (p + lgth))])"
  from Cons.prems have j: "j < n" by simp
  have l1: "2 \<le> length (?store1 a)" using Cons.prems(1) by simp
  have j1: "Suc j + length rest \<le> n" using Cons.prems(2) by simp
  have step: "set_slices store (replicate n a) j (p # rest) lgth =
      set_slices ?store1 (replicate n a) (Suc j) rest lgth"
    using j Cons.prems(1) by (simp add: Let_def)
  show ?case
    unfolding step Cons.IH [of ?store1 "Suc j", OF l1 j1]
    by (cases "rest = []") (auto simp: fun_eq_iff)
qed

lemma ceil_div_succ:
  assumes "0 < (s::int)"
  shows "- ((- (a + 1)) div s) = a div s + 1"
proof -
  have eq: "- (a + 1) = s * (- (a div s) - 1) + (s - a mod s - 1)"
  proof -
    have "a = s * (a div s) + a mod s" by simp
    then have "- (a + 1) = - (s * (a div s)) - a mod s - 1" by linarith
    also have "\<dots> = s * (- (a div s) - 1) + (s - a mod s - 1)"
      by (simp add: algebra_simps)
    finally show ?thesis .
  qed
  have lo: "0 \<le> s - a mod s - 1"
    using pos_mod_bound [OF assms, of a] by linarith
  have hi: "s - a mod s - 1 < s"
    using pos_mod_sign [OF assms, of a] by linarith
  have "(- (a + 1)) div s = - (a div s) - 1"
    using int_div_pos_eq [OF eq lo hi] .
  then show ?thesis by simp
qed

lemma windows_aliased:
  assumes "2 \<le> ndim"
  shows "(case alloc_slices ndim (length pos) of
            (store, slices) \<Rightarrow>
              (case set_slices store slices 0 pos lgth of
                 Inl e \<Rightarrow> Inl e
               | Inr store' \<Rightarrow> Inr (take_windows store' slices images)))
         = Inr (map (\<lambda>img. replicate (length pos)
                   (img, (replicate ndim (Slice None None))
                           [ndim - 2 := Slice (Some (last pos)) (Some (last pos + lgth))]))
                images)"
proof -
  let ?store = "(\<lambda>_. [])(0 := replicate ndim (Slice None None)) :: nat \<Rightarrow> slice list"
  have l: "2 \<le> length (?store 0)" using assms by simp
  have j: "0 + length pos \<le> length pos" by simp
  note s = set_slices_aliased [of ?store 0, OF l j, of lgth]
  show ?thesis
  proof (cases "pos = []")
    case True
    then show ?thesis
      by (simp add: alloc_slices_def take_windows_def)
  next
    case False
    then show ?thesis
      unfolding alloc_slices_def
      by (simp add: s take_windows_def map_replicate_const del: replicate.simps)
  qed
qed

lemma crop_result:
  assumes "image_length images = (Inr L :: 'e pyexc + nat)"
    and "step \<noteq> 0"
    and "arange 0 (int L - lgth + 1) step = (Inr pos :: 'e pyexc + int list)"
  shows "crop images lgth step =
           (Inr (map (\<lambda>img. replicate (length pos)
                   (img, (replicate (length (shape (hd images))) (Slice None None))
                           [length (shape (hd images)) - 2 :=
                              Slice (Some (last pos)) (Some (last pos + lgth))]))
                 images) :: 'e pyexc + _)"
proof -
  from image_length_bound [OF assms(1)] obtain img0 rest where
    images: "images = img0 # rest" and nd: "2 \<le> length (shape img0)"
    by (cases images) auto
  show ?thesis
    unfolding images
    using assms(1,3) [unfolded images]
      windows_aliased [OF nd, where pos = pos and lgth = lgth and images = "img0 # rest"]
    by (simp add: crop_def)
qed

lemma crop_positions_strided:
  assumes "image_length images = (Inr L :: 'e pyexc + nat)"
    and "0 < step"
  shows "crop_positions images lgth step =
           (Inr (map (\<lambda>i. int i * step) [0..<nat ((int L - lgth) div step + 1)]) :: 'e pyexc + _)"
proof -
  have "- ((0 - (int L - lgth + 1)) div step) = (int L - lgth) div step + 1"
    using ceil_div_succ [OF assms(2), of "int L - lgth"] by simp
  then show ?thesis
    using assms by (simp add: crop_positions_def arange_def)
qed

text \<open>
  The offsets of \<open>crop\<close>. For images with common length \<open>L\<close> along the
  cropped axis and a positive integer step, the offsets \<open>pos\<close> that \<open>crop\<close> computes are
  \<open>0, step, 2 * step, ...\<close> in this order, and they are exactly the non-negative
  multiples of the step that are at most \<open>L - lgth\<close> (none when the window is longer
  than the images).
\<close>

theorem crop_positions_multiples:
  assumes "image_length images = (Inr L :: 'e pyexc + nat)"
    and "0 < step"
  shows "\<exists>pos. crop_positions images lgth step = (Inr pos :: 'e pyexc + _)
           \<and> pos = map (\<lambda>i. int i * step) [0..<nat ((int L - lgth) div step + 1)]
           \<and> set pos = {p. 0 \<le> p \<and> step dvd p \<and> p \<le> int L - lgth}"
proof -
  let ?a = "int L - lgth"
  let ?n = "nat (?a div step + 1)"
  let ?pos = "map (\<lambda>i. int i * step) [0..<?n]"
  have run: "crop_positions images lgth step = (Inr ?pos :: 'e pyexc + _)"
    by (rule crop_positions_strided [OF assms])
  have "set ?pos = {p. 0 \<le> p \<and> step dvd p \<and> p \<le> ?a}"
  proof (intro set_eqI iffI)
    fix p assume "p \<in> set ?pos"
    then obtain i where i: "i < ?n" and p: "p = int i * step" by auto
    from i have "int i \<le> ?a div step" by linarith
    then have "int i * step \<le> (?a div step) * step"
      using assms(2) by (simp add: mult_right_mono)
    also have "\<dots> \<le> ?a"
      using assms(2) by (metis mult.commute pos_mod_sign mult_div_mod_eq add_increasing2 order_refl)
    finally have "p \<le> ?a" using p by simp
    moreover have "0 \<le> p" using p assms(2) by simp
    moreover have "step dvd p" using p by simp
    ultimately show "p \<in> {p. 0 \<le> p \<and> step dvd p \<and> p \<le> ?a}" by simp
  next
    fix p assume "p \<in> {p. 0 \<le> p \<and> step dvd p \<and> p \<le> ?a}"
    then have p0: "0 \<le> p" and d: "step dvd p" and pa: "p \<le> ?a" by simp_all
    from d obtain k where k: "p = step * k" by (auto simp: dvd_def)
    with p0 assms(2) have k0: "0 \<le> k" by (simp add: zero_le_mult_iff)
    have "k = p div step" using k assms(2) by simp
    also have "\<dots> \<le> ?a div step" using pa assms(2) by (simp add: zdiv_mono1)
    finally have "nat k < ?n" using k0 by linarith
    then have "nat k \<in> set [0..<?n]" by simp
    then have "(\<lambda>i. int i * step) (nat k) \<in> (\<lambda>i. int i * step) ` set [0..<?n]"
      by (rule imageI)
    moreover have "p = int (nat k) * step" using k k0 by (simp add: mult.commute)
    ultimately show "p \<in> set ?pos" by simp
  qed
  with run show ?thesis by blast
qed

theorem crop_positions_multiples_witness:
  "image_length [Ndarray [7, 10, 3] ''dl'', Ndarray [7, 12, 3] ''uv''] = (Inr 10 :: unit pyexc + nat)
   \<and> (0::int) < 3
   \<and> crop_positions [Ndarray [7, 10, 3] ''dl'', Ndarray [7, 12, 3] ''uv''] 4 3
        = (Inr [0, 3, 6] :: unit pyexc + int list)"
proof -
  let ?images = "[Ndarray [7, 10, 3] ''dl'', Ndarray [7, 12, 3] ''uv'']"
  have il: "image_length ?images = (Inr 10 :: unit pyexc + nat)"
    by (simp add: image_length_def shape_m2_def py_min_def)
  have st: "(0::int) < 3" by simp
  have up: "[0..<3] = [0, 1, 2]" by (simp add: upt_rec)
  from crop_positions_multiples [OF il st, of 4]
  have "crop_positions ?images 4 3
      = (Inr (map (\<lambda>i. int i * 3) [0..<nat ((int 10 - 4) div 3 + 1)]) :: unit pyexc + int list)"
    by blast
  then have "crop_positions ?images 4 3 = (Inr [0, 3, 6] :: unit pyexc + int list)"
    by (simp add: up)
  with il st show ?thesis by blast
qed

text \<open>
  Claim C8, at the input of the spec's own example (common image length 10, window
  length 4, step 3, two images of three dimensions). \<open>crop\<close> computes the offsets
  0, 3 and 6, as the claim says; but the three entries of \<open>slices\<close> are one and the same
  list object, so every assignment of the loop lands in it and all three windows of each
  image are cut at the last offset, 6. No window is produced at the offsets 0 and 3.
\<close>

theorem crop_windows_all_at_last_offset:
  "crop_positions [Ndarray [7, 10, 3] ''dl'', Ndarray [7, 12, 3] ''uv''] 4 3
     = (Inr [0, 3, 6] :: unit pyexc + int list)
   \<and> crop [Ndarray [7, 10, 3] ''dl'', Ndarray [7, 12, 3] ''uv''] 4 3
     = (Inr [[(Ndarray [7, 10, 3] ''dl'', [Slice None None, Slice (Some 6) (Some 10), Slice None None]),
              (Ndarray [7, 10, 3] ''dl'', [Slice None None, Slice (Some 6) (Some 10), Slice None None]),
              (Ndarray [7, 10, 3] ''dl'', [Slice None None, Slice (Some 6) (Some 10), Slice None None])],
             [(Ndarray [7, 12, 3] ''uv'', [Slice None None, Slice (Some 6) (Some 10), Slice None None]),
              (Ndarray [7, 12, 3] ''uv'', [Slice None None, Slice (Some 6) (Some 10), Slice None None]),
              (Ndarray [7, 12, 3] ''uv'', [Slice None None, Slice (Some 6) (Some 10), Slice None None])]]
        :: unit pyexc + _)"
proof -
  let ?images = "[Ndarray [7, 10, 3] ''dl'', Ndarray [7, 12, 3] ''uv'']"
  have il: "image_length ?images = (Inr 10 :: unit pyexc + nat)"
    by (simp add: image_length_def shape_m2_def py_min_def)
  have up: "[0..<3] = [0, 1, 2]" by (simp add: upt_rec)
  have pos: "arange 0 (int 10 - 4 + 1) 3 = (Inr [0, 3, 6] :: unit pyexc + int list)"
    by (simp add: arange_def up)
  have "crop_positions ?images 4 3 = (Inr [0, 3, 6] :: unit pyexc + int list)"
    using il pos by (simp add: crop_positions_def)
  moreover have "replicate 3 x = [x, x, x]" for x :: "'z"
    by (simp add: numeral_3_eq_3)
  ultimately show ?thesis
    using crop_result [OF il _ pos] by simp
qed

lemma random_crop_result:
  assumes "image_length images = (Inr L :: 'e pyexc + nat)"
    and "random_crop_positions rnd images lgth n_crops = (Inr pos :: 'e pyexc + int list)"
    and "length pos = n_crops"
  shows "random_crop rnd images lgth n_crops =
           (Inr (map (\<lambda>img. replicate (length pos)
                   (img, (replicate (length (shape (hd images))) (Slice None None))
                           [length (shape (hd images)) - 2 :=
                              Slice (Some (last pos)) (Some (last pos + lgth))]))
                 images) :: 'e pyexc + _)"
proof -
  from image_length_bound [OF assms(1)] obtain img0 rest where
    images: "images = img0 # rest" and nd: "2 \<le> length (shape img0)"
    by (cases images) auto
  show ?thesis
    unfolding images
    using assms(2,3) [unfolded images]
      windows_aliased [OF nd, where pos = pos and lgth = lgth and images = "img0 # rest"]
    by (simp add: random_crop_def)
qed

text \<open>
  Claim C9. For images with a common length \<open>L\<close> along the cropped axis (the minimum of
  \<open>shape[-2]\<close>) and a window length \<open>lgth \<le> L\<close>, \<open>random_crop\<close> returns for every
  sequence of random draws and every number of crops; every offset it draws lies in
  \<open>0 .. L - lgth\<close>, and every window it cuts, of every image, starts at such an offset
  and ends within that image's extent.
\<close>

theorem random_crop_offsets_in_range:
  assumes "image_length images = (Inr L :: 'e pyexc + nat)"
    and "lgth \<le> int L"
  shows "\<exists>pos res.
           random_crop_positions rnd images lgth n_crops = (Inr pos :: 'e pyexc + _)
         \<and> random_crop rnd images lgth n_crops = (Inr res :: 'e pyexc + _)
         \<and> length pos = n_crops
         \<and> (\<forall>p \<in> set pos. 0 \<le> p \<and> p \<le> int L - lgth)
         \<and> length res = length images
         \<and> (\<forall>ws \<in> set res. length ws = n_crops \<and>
              (\<forall>(img, sl) \<in> set ws. img \<in> set images \<and>
                 (\<exists>p \<in> set pos. window_offset sl = Some p
                    \<and> sl ! (length sl - 2) = Slice (Some p) (Some (p + lgth))
                    \<and> 0 \<le> p \<and> p \<le> int L - lgth
                    \<and> p + lgth \<le> int (shape img ! (length (shape img) - 2)))))"
proof -
  from image_length_bound [OF assms(1)] obtain img0 rest where
    images: "images = img0 # rest" and nd: "2 \<le> length (shape img0)"
    and bound: "\<forall>img \<in> set images. L \<le> shape img ! (length (shape img) - 2)"
    by (cases images) auto
  let ?h = "int L - lgth + 1"
  define pos where "pos = map (\<lambda>i. 0 + int (rnd i mod nat ?h)) [0..<n_crops]"
  have h: "0 < ?h" using assms(2) by simp
  have rp: "random_crop_positions rnd images lgth n_crops = (Inr pos :: 'e pyexc + _)"
    using assms(1) h by (simp add: random_crop_positions_def randint_def pos_def)
  have len: "length pos = n_crops" by (simp add: pos_def)
  have rng: "\<forall>p \<in> set pos. 0 \<le> p \<and> p \<le> int L - lgth"
  proof
    fix p assume "p \<in> set pos"
    then obtain i where p: "p = int (rnd i mod nat ?h)" by (auto simp: pos_def)
    have "rnd i mod nat ?h < nat ?h" using h by simp
    with p h show "0 \<le> p \<and> p \<le> int L - lgth" by linarith
  qed
  let ?nd = "length (shape img0)"
  let ?w = "(replicate ?nd (Slice None None))
              [?nd - 2 := Slice (Some (last pos)) (Some (last pos + lgth))]"
  define res where "res = map (\<lambda>img. replicate (length pos) (img, ?w)) images"
  have rc: "random_crop rnd images lgth n_crops = (Inr res :: 'e pyexc + _)"
    unfolding res_def images
    using rp [unfolded images]
      windows_aliased [OF nd, where pos = pos and lgth = lgth and images = "img0 # rest"] len
    by (simp add: random_crop_def)
  have lres: "length res = length images" by (simp add: res_def)
  have win: "\<forall>ws \<in> set res. length ws = n_crops \<and>
              (\<forall>(img, sl) \<in> set ws. img \<in> set images \<and>
                 (\<exists>p \<in> set pos. window_offset sl = Some p
                    \<and> sl ! (length sl - 2) = Slice (Some p) (Some (p + lgth))
                    \<and> 0 \<le> p \<and> p \<le> int L - lgth
                    \<and> p + lgth \<le> int (shape img ! (length (shape img) - 2))))"
  proof (rule ballI)
    fix ws assume "ws \<in> set res"
    then obtain img where img: "img \<in> set images" and ws: "ws = replicate (length pos) (img, ?w)"
      by (auto simp: res_def)
    have l: "length ws = n_crops" using ws len by simp
    have "\<forall>(img, sl) \<in> set ws. img \<in> set images \<and>
                 (\<exists>p \<in> set pos. window_offset sl = Some p
                    \<and> sl ! (length sl - 2) = Slice (Some p) (Some (p + lgth))
                    \<and> 0 \<le> p \<and> p \<le> int L - lgth
                    \<and> p + lgth \<le> int (shape img ! (length (shape img) - 2)))"
    proof (clarify)
      fix img' sl assume "(img', sl) \<in> set ws"
      with ws have e: "img' = img" "sl = ?w" and ne: "pos \<noteq> []" by auto
      from ne have lp: "last pos \<in> set pos" by simp
      with rng have r: "0 \<le> last pos" "last pos \<le> int L - lgth" by auto
      have nth: "sl ! (length sl - 2) = Slice (Some (last pos)) (Some (last pos + lgth))"
        using e nd by simp
      then have off: "window_offset sl = Some (last pos)"
        by (simp add: window_offset_def)
      from bound img have "int L \<le> int (shape img ! (length (shape img) - 2))" by simp
      with r have fit: "last pos + lgth \<le> int (shape img ! (length (shape img) - 2))" by linarith
      show "img' \<in> set images \<and>
             (\<exists>p \<in> set pos. window_offset sl = Some p
                \<and> sl ! (length sl - 2) = Slice (Some p) (Some (p + lgth))
                \<and> 0 \<le> p \<and> p \<le> int L - lgth
                \<and> p + lgth \<le> int (shape img' ! (length (shape img') - 2)))"
        using img e lp off nth r fit by blast
    qed
    with l show "length ws = n_crops \<and>
              (\<forall>(img, sl) \<in> set ws. img \<in> set images \<and>
                 (\<exists>p \<in> set pos. window_offset sl = Some p
                    \<and> sl ! (length sl - 2) = Slice (Some p) (Some (p + lgth))
                    \<and> 0 \<le> p \<and> p \<le> int L - lgth
                    \<and> p + lgth \<le> int (shape img ! (length (shape img) - 2))))"
      by blast
  qed
  from rp rc len rng lres win show ?thesis by blast
qed

theorem random_crop_offsets_in_range_witness:
  "image_length [Ndarray [7, 10, 3] ''dl'', Ndarray [7, 12, 3] ''uv''] = (Inr 10 :: unit pyexc + nat)
   \<and> (4::int) \<le> int 10
   \<and> (\<exists>pos res.
         random_crop_positions (\<lambda>i. 9 + i) [Ndarray [7, 10, 3] ''dl'', Ndarray [7, 12, 3] ''uv''] 4 2
           = (Inr pos :: unit pyexc + _)
       \<and> random_crop (\<lambda>i. 9 + i) [Ndarray [7, 10, 3] ''dl'', Ndarray [7, 12, 3] ''uv''] 4 2
           = (Inr res :: unit pyexc + _)
       \<and> pos = [2, 3]
       \<and> res = [[(Ndarray [7, 10, 3] ''dl'', [Slice None None, Slice (Some 3) (Some 7), Slice None None]),
                 (Ndarray [7, 10, 3] ''dl'', [Slice None None, Slice (Some 3) (Some 7), Slice None None])],
                [(Ndarray [7, 12, 3] ''uv'', [Slice None None, Slice (Some 3) (Some 7), Slice None None]),
                 (Ndarray [7, 12, 3] ''uv'', [Slice None None, Slice (Some 3) (Some 7), Slice None None])]])"
proof -
  let ?images = "[Ndarray [7, 10, 3] ''dl'', Ndarray [7, 12, 3] ''uv'']"
  let ?rnd = "\<lambda>i::nat. 9 + i"
  have il: "image_length ?images = (Inr 10 :: unit pyexc + nat)"
    by (simp add: image_length_def shape_m2_def py_min_def)
  have le: "(4::int) \<le> int 10" by simp
  have up: "[0..<2] = [0, 1]" by (simp add: upt_rec)
  have rp: "random_crop_positions ?rnd ?images 4 2 = (Inr [2, 3] :: unit pyexc + _)"
    using il by (simp add: random_crop_positions_def randint_def up)
  have r2: "replicate 2 x = [x, x]" for x :: "'z"
    by (simp add: numeral_2_eq_2)
  have rc: "random_crop ?rnd ?images 4 2
      = (Inr [[(Ndarray [7, 10, 3] ''dl'', [Slice None None, Slice (Some 3) (Some 7), Slice None None]),
               (Ndarray [7, 10, 3] ''dl'', [Slice None None, Slice (Some 3) (Some 7), Slice None None])],
              [(Ndarray [7, 12, 3] ''uv'', [Slice None None, Slice (Some 3) (Some 7), Slice None None]),
               (Ndarray [7, 12, 3] ''uv'', [Slice None None, Slice (Some 3) (Some 7), Slice None None])]]
         :: unit pyexc + _)"
    using random_crop_result [OF il rp] by (simp add: r2)
  from random_crop_offsets_in_range [OF il le, of ?rnd 2]
  obtain pos res where
    "random_crop_positions ?rnd ?images 4 2 = (Inr pos :: unit pyexc + _)"
    "random_crop ?rnd ?images 4 2 = (Inr res :: unit pyexc + _)"
    by blast
  with rp rc il le show ?thesis by simp
qed

section \<open>The cross-item shuffle: the claim\<close>

lemma and_then_cases:
  assumes "and_then r f = (out, s')"
  shows "(\<exists>e. r = (Raised e, s') \<and> out = Raised e) \<or> (\<exists>s. r = (Returned, s) \<and> f s = (out, s'))"
  using assms by (cases r; cases "fst r") (auto simp: and_then_def)

lemma set_component_effect:
  assumes "set_component dst d src ix v self = (out, self')"
    and "d < length dst" and "attrs self (dst ! d) = Some a"
  shows "core_index self' = core_index self \<and> attrs self' = attrs self
     \<and> (\<forall>b. b \<noteq> a \<longrightarrow> heap self' b = heap self b)
     \<and> length (heap self' a) = length (heap self a)
     \<and> (\<forall>q. index_get_pos (core_index self) ix \<noteq> Some q \<longrightarrow> heap self' a ! q = heap self a ! q)
     \<and> (\<forall>q. heap self a ! q = v \<longrightarrow> heap self' a ! q = v)
     \<and> (out = Returned \<longrightarrow>
           (\<forall>q. index_get_pos (core_index self) ix = Some q \<longrightarrow> heap self' a ! q = v))"
  using assms
  by (auto simp: set_component_def nth_list_update split: if_splits option.splits)


lemma swap_pair_effect:
  fixes self :: "('k, 'img) core_batch" and out :: "'e outcome"
  assumes uv: "attrs self ''uv'' = Some au" and lab: "attrs self ''labels'' = Some al"
    and ne: "au \<noteq> al"
    and run: "swap_pair core_components core_components i j self = (out, self')"
  shows "core_index self' = core_index self \<and> attrs self' = attrs self
     \<and> (\<forall>b. b \<noteq> au \<and> b \<noteq> al \<longrightarrow> heap self' b = heap self b)
     \<and> length (heap self' au) = length (heap self au)
     \<and> length (heap self' al) = length (heap self al)
     \<and> (\<forall>q. i = j \<or> (index_get_pos (core_index self) i \<noteq> Some q
                      \<and> index_get_pos (core_index self) j \<noteq> Some q) \<longrightarrow>
            heap self' au ! q = heap self au ! q \<and> heap self' al ! q = heap self al ! q)
     \<and> (\<forall>q. heap self al ! q = Lab 1 \<longrightarrow> heap self' al ! q = Lab 1)
     \<and> (out = Returned \<and> i \<noteq> j \<longrightarrow>
           (\<forall>q. index_get_pos (core_index self) i = Some q
                 \<or> index_get_pos (core_index self) j = Some q \<longrightarrow> heap self' al ! q = Lab 1))"
proof (cases "i = j")
  case True
  with run show ?thesis by (simp add: swap_pair_def)
next
  case False
  let ?cc = core_components
  let ?pos = "index_get_pos (core_index self)"
  have cc: "1 < length ?cc" "?cc ! 1 = ''uv''" "2 < length ?cc" "?cc ! 2 = ''labels''"
    "\<not> length ?cc \<le> 1"
    by (simp_all add: core_components_def)
  define F where "F s \<longleftrightarrow> core_index s = core_index self \<and> attrs s = attrs self
     \<and> (\<forall>b. b \<noteq> au \<and> b \<noteq> al \<longrightarrow> heap s b = heap self b)
     \<and> length (heap s au) = length (heap self au)
     \<and> length (heap s al) = length (heap self al)
     \<and> (\<forall>q. ?pos i \<noteq> Some q \<and> ?pos j \<noteq> Some q \<longrightarrow>
            heap s au ! q = heap self au ! q \<and> heap s al ! q = heap self al ! q)
     \<and> (\<forall>q. heap self al ! q = Lab 1 \<longrightarrow> heap s al ! q = Lab 1)" for s :: "('k, 'img) core_batch"
  have F0: "F self" by (simp add: F_def)
  have stepuv: "F s'" if "F s" and "k = i \<or> k = j"
    and "set_component ?cc 1 ?cc k v s = ((o' :: 'e outcome), s')" for s s' k v o'
  proof -
    from that(1) have a: "attrs s (?cc ! 1) = Some au" using uv cc by (simp add: F_def)
    note e = set_component_effect [OF that(3) cc(1) a]
    from e have "heap s' al = heap s al" using ne by auto
    with e that(1,2) show ?thesis
      unfolding F_def by (elim disjE conjE) (intro conjI allI impI; simp)+
  qed
  have steplab: "F s' \<and> (\<forall>q. heap s al ! q = Lab 1 \<longrightarrow> heap s' al ! q = Lab 1)
        \<and> (o' = Returned \<longrightarrow> (\<forall>q. ?pos k = Some q \<longrightarrow> heap s' al ! q = Lab 1))"
    if "F s" and "k = i \<or> k = j"
    and "set_component ?cc 2 ?cc k (Lab 1) s = ((o' :: 'e outcome), s')" for s s' k o'
  proof -
    from that(1) have a: "attrs s (?cc ! 2) = Some al" using lab cc by (simp add: F_def)
    from that(1) have ci: "core_index s = core_index self" by (simp add: F_def)
    note e = set_component_effect [OF that(3) cc(3) a]
    from e have u: "heap s' au = heap s au" using ne by auto
    have "F s'"
      using e u that(1,2) unfolding F_def
      by (elim disjE conjE) (intro conjI allI impI; simp)+
    with e ci show ?thesis by simp
  qed
  show ?thesis
  proof (cases "get_component self i ''uv'' :: 'e pyexc + 'img cell")
    case (Inl e)
    with run False cc have "self' = self" "out = Raised e" by (simp_all add: swap_pair_def)
    then show ?thesis by simp
  next
    case uv1: (Inr uv1)
    show ?thesis
    proof (cases "get_component self j ''uv'' :: 'e pyexc + 'img cell")
      case (Inl e)
      with run False cc uv1 have "self' = self" "out = Raised e" by (simp_all add: swap_pair_def)
      then show ?thesis by simp
    next
      case uv2: (Inr uv2)
      obtain o1 s1 where r1: "set_component ?cc 1 ?cc i uv2 self = ((o1 :: 'e outcome), s1)"
        by (cases "set_component ?cc 1 ?cc i uv2 self :: 'e outcome \<times> _") auto
      obtain o2 s2 where r2: "set_component ?cc 1 ?cc j uv1 s1 = ((o2 :: 'e outcome), s2)"
        by (cases "set_component ?cc 1 ?cc j uv1 s1 :: 'e outcome \<times> _") auto
      obtain o3 s3 where r3: "set_component ?cc 2 ?cc i (Lab 1) s2 = ((o3 :: 'e outcome), s3)"
        by (cases "set_component ?cc 2 ?cc i (Lab 1) s2 :: 'e outcome \<times> _") auto
      obtain o4 s4 where r4: "set_component ?cc 2 ?cc j (Lab 1) s3 = ((o4 :: 'e outcome), s4)"
        by (cases "set_component ?cc 2 ?cc j (Lab 1) s3 :: 'e outcome \<times> _") auto
      have F1: "F s1" using stepuv [OF F0 _ r1] by simp
      have F2: "F s2" using stepuv [OF F1 _ r2] by simp
      have L3: "F s3" "o3 = Returned \<longrightarrow> (\<forall>q. ?pos i = Some q \<longrightarrow> heap s3 al ! q = Lab 1)"
        using steplab [OF F2 _ r3] by simp_all
      have L4: "F s4" "\<forall>q. heap s3 al ! q = Lab 1 \<longrightarrow> heap s4 al ! q = Lab 1"
        "o4 = Returned \<longrightarrow> (\<forall>q. ?pos j = Some q \<longrightarrow> heap s4 al ! q = Lab 1)"
        using steplab [OF L3(1) _ r4] by simp_all
      have chain: "and_then (and_then (and_then
              (o1, s1) (set_component ?cc 1 ?cc j uv1))
              (set_component ?cc 2 ?cc i (Lab 1)))
              (set_component ?cc 2 ?cc j (Lab 1)) = (out, self')"
        using run False cc uv1 uv2 r1 by (simp add: swap_pair_def)
      have fin: "F self' \<and> (out = Returned \<longrightarrow>
          (\<forall>q. ?pos i = Some q \<or> ?pos j = Some q \<longrightarrow> heap self' al ! q = Lab 1))"
      proof (cases o1)
        case (Raised e)
        with chain have "self' = s1" "out = Raised e" by (simp_all add: and_then_def)
        with F1 show ?thesis by simp
      next
        case Returned
        note R1 = this
        show ?thesis
        proof (cases o2)
          case (Raised e)
          with chain R1 r2 have "self' = s2" "out = Raised e" by (simp_all add: and_then_def)
          with F2 show ?thesis by simp
        next
          case Returned
          note R2 = this
          show ?thesis
          proof (cases o3)
            case (Raised e)
            with chain R1 R2 r2 r3 have "self' = s3" "out = Raised e"
              by (simp_all add: and_then_def)
            with L3 show ?thesis by simp
          next
            case Returned
            with chain R1 R2 r2 r3 r4 have "self' = s4" "out = o4"
              by (simp_all add: and_then_def)
            with L3 L4 Returned show ?thesis by auto
          qed
        qed
      qed
      with False show ?thesis unfolding F_def by blast
    qed
  qed
qed


lemma set_map_filter_eq: "set (List.map_filter f xs) = {y. \<exists>x \<in> set xs. f x = Some y}"
  by (induction xs) (auto simp: map_filter_simps split: option.splits)

lemma swapped_positions_Cons:
  "set (swapped_positions idx ((i, j) # rest)) =
     {q. i \<noteq> j \<and> (index_get_pos idx i = Some q \<or> index_get_pos idx j = Some q)}
     \<union> set (swapped_positions idx rest)"
  by (auto simp: swapped_positions_def set_map_filter_eq)

lemma shuffle_loop_effect:
  fixes self :: "('k, 'img) core_batch" and out :: "'e outcome"
  assumes "attrs self ''uv'' = Some au" and "attrs self ''labels'' = Some al"
    and "au \<noteq> al"
    and "shuffle_loop core_components core_components pairs self = (out, self')"
  shows "core_index self' = core_index self \<and> attrs self' = attrs self
     \<and> (\<forall>b. b \<noteq> au \<and> b \<noteq> al \<longrightarrow> heap self' b = heap self b)
     \<and> length (heap self' au) = length (heap self au)
     \<and> length (heap self' al) = length (heap self al)
     \<and> (\<forall>q. q \<notin> set (swapped_positions (core_index self) pairs) \<longrightarrow>
            heap self' au ! q = heap self au ! q \<and> heap self' al ! q = heap self al ! q)
     \<and> (\<forall>q. heap self al ! q = Lab 1 \<longrightarrow> heap self' al ! q = Lab 1)
     \<and> (out = Returned \<longrightarrow>
           (\<forall>q \<in> set (swapped_positions (core_index self) pairs). heap self' al ! q = Lab 1))"
  using assms
proof (induction pairs arbitrary: self out)
  case Nil
  then show ?case by (simp add: swapped_positions_def)
next
  case (Cons pair rest)
  obtain i j where pair: "pair = (i, j)" by (cases pair)
  let ?cc = core_components
  from Cons.prems(4) have run:
    "and_then (swap_pair ?cc ?cc i j self) (shuffle_loop ?cc ?cc rest) = (out, self')"
    by (simp add: pair)
  from and_then_cases [OF run] show ?case
  proof (elim disjE exE conjE)
    fix e assume r: "swap_pair ?cc ?cc i j self = (Raised e, self')" and o: "out = Raised e"
    note e1 = swap_pair_effect [OF Cons.prems(1,2,3) r]
    have "\<forall>q. q \<notin> set (swapped_positions (core_index self) (pair # rest)) \<longrightarrow>
            heap self' au ! q = heap self au ! q \<and> heap self' al ! q = heap self al ! q"
      using e1 unfolding pair swapped_positions_Cons by blast
    with e1 o show ?thesis by simp
  next
    fix s1 assume r: "swap_pair ?cc ?cc i j self = (Returned, s1)"
      and l: "shuffle_loop ?cc ?cc rest s1 = (out, self')"
    note e1 = swap_pair_effect [OF Cons.prems(1,2,3) r]
    from e1 Cons.prems(1,2) have a1: "attrs s1 ''uv'' = Some au" "attrs s1 ''labels'' = Some al"
      by simp_all
    note e2 = Cons.IH [OF a1 Cons.prems(3) l]
    from e1 have ci: "core_index s1 = core_index self" by simp
    have A: "core_index self' = core_index self \<and> attrs self' = attrs self
       \<and> (\<forall>b. b \<noteq> au \<and> b \<noteq> al \<longrightarrow> heap self' b = heap self b)
       \<and> length (heap self' au) = length (heap self au)
       \<and> length (heap self' al) = length (heap self al)"
      using e1 e2 by simp
    have B: "\<forall>q. q \<notin> set (swapped_positions (core_index self) (pair # rest)) \<longrightarrow>
            heap self' au ! q = heap self au ! q \<and> heap self' al ! q = heap self al ! q"
    proof (intro allI impI)
      fix q assume q: "q \<notin> set (swapped_positions (core_index self) (pair # rest))"
      then have q1: "i = j \<or> (index_get_pos (core_index self) i \<noteq> Some q
                      \<and> index_get_pos (core_index self) j \<noteq> Some q)"
        and q2: "q \<notin> set (swapped_positions (core_index s1) rest)"
        unfolding pair swapped_positions_Cons ci by auto
      from e1 q1 have "heap s1 au ! q = heap self au ! q \<and> heap s1 al ! q = heap self al ! q"
        by blast
      moreover from e2 q2 have "heap self' au ! q = heap s1 au ! q \<and> heap self' al ! q = heap s1 al ! q"
        by blast
      ultimately show "heap self' au ! q = heap self au ! q \<and> heap self' al ! q = heap self al ! q"
        by simp
    qed
    have C: "\<forall>q. heap self al ! q = Lab 1 \<longrightarrow> heap self' al ! q = Lab 1"
      using e1 e2 by blast
    have D: "out = Returned \<longrightarrow>
           (\<forall>q \<in> set (swapped_positions (core_index self) (pair # rest)). heap self' al ! q = Lab 1)"
    proof (intro impI ballI)
      fix q assume o: "out = Returned"
        and q: "q \<in> set (swapped_positions (core_index self) (pair # rest))"
      from q consider
        (here) "i \<noteq> j" "index_get_pos (core_index self) i = Some q
                         \<or> index_get_pos (core_index self) j = Some q"
        | (later) "q \<in> set (swapped_positions (core_index s1) rest)"
        unfolding pair swapped_positions_Cons ci by auto
      then show "heap self' al ! q = Lab 1"
      proof cases
        case here
        with e1 have "heap s1 al ! q = Lab 1" by blast
        with e2 show ?thesis by blast
      next
        case later
        with e2 o show ?thesis by blast
      qed
    qed
    from A B C D show ?thesis by blast
  qed
qed

lemma rebind_default:
  fixes self :: "('k, 'img) core_batch"
  assumes "attrs self ''dl'' = Some ad" and "attrs self ''uv'' = Some au"
    and "attrs self ''labels'' = Some al"
  shows "rebind core_components 0 core_components self = (Returned, self)"
proof -
  have t: "(attrs self)(''dl'' \<mapsto> ad) = attrs self" "(attrs self)(''uv'' \<mapsto> au) = attrs self"
    "(attrs self)(''labels'' \<mapsto> al) = attrs self"
    using assms by (simp_all add: map_upd_triv)
  show ?thesis
    using assms t by (simp add: core_components_def)
qed

text \<open>
  Claim C10. Let the names \<open>dl\<close>, \<open>uv\<close> and \<open>labels\<close> of a batch refer to three different
  arrays. For every probability, every sequence of random draws and every outcome of
  \<open>shuffle_images\<close> with the default \<open>src\<close> and \<open>dst\<close>, the call leaves the Index, the
  binding of every attribute name, the \<open>dl\<close> array and every array other than \<open>uv\<close> and
  \<open>labels\<close> as they were, and keeps the lengths of \<open>uv\<close> and \<open>labels\<close>. When
  \<open>np.random.choice\<close> raises, nothing at all changes. Otherwise \<open>uv\<close> and \<open>labels\<close> are
  unchanged at every position that is not the position of a key of a pair of different
  keys, and when the call returns, the label at each of those positions is 1.
\<close>

theorem shuffle_images_frame:
  fixes self :: "('k, 'img) core_batch" and out :: "'e outcome"
  assumes "attrs self ''dl'' = Some ad" and "attrs self ''uv'' = Some au"
    and "attrs self ''labels'' = Some al"
    and "ad \<noteq> au" and "ad \<noteq> al" and "au \<noteq> al"
    and "shuffle_images rnd proba None None self = (out, self')"
  shows "core_index self' = core_index self \<and> attrs self' = attrs self
     \<and> heap self' ad = heap self ad
     \<and> (\<forall>b. b \<noteq> au \<and> b \<noteq> al \<longrightarrow> heap self' b = heap self b)
     \<and> length (heap self' au) = length (heap self au)
     \<and> length (heap self' al) = length (heap self al)
     \<and> (\<forall>e. shuffle_pairs rnd (core_index self) proba = Inl e \<longrightarrow> out = Raised e \<and> self' = self)
     \<and> (\<forall>pairs. shuffle_pairs rnd (core_index self) proba = (Inr pairs :: 'e pyexc + _) \<longrightarrow>
           (\<forall>q. q \<notin> set (swapped_positions (core_index self) pairs) \<longrightarrow>
              heap self' au ! q = heap self au ! q \<and> heap self' al ! q = heap self al ! q)
         \<and> (out = Returned \<longrightarrow>
              (\<forall>q \<in> set (swapped_positions (core_index self) pairs). heap self' al ! q = Lab 1)))"
proof (cases "shuffle_pairs rnd (core_index self) proba :: 'e pyexc + _")
  case (Inl e)
  with assms(7) have "out = Raised e" "self' = self"
    by (simp_all add: shuffle_images_def)
  with Inl show ?thesis by simp
next
  case (Inr pairs)
  have rb: "rebind core_components 0 core_components self = ((Returned :: 'e outcome), self)"
    by (rule rebind_default [OF assms(1,2,3)])
  have "shuffle_loop core_components core_components pairs self = (out, self')"
    using assms(7) Inr by (simp add: shuffle_images_def and_then_def rb)
  note e = shuffle_loop_effect [OF assms(2,3,6) this]
  from e assms(4,5) have "heap self' ad = heap self ad" by simp
  with e Inr show ?thesis by simp
qed

theorem shuffle_images_frame_witness:
  "attrs \<lparr>core_index = [''A'', ''B'', ''C'', ''D''],
          attrs = [''dl'' \<mapsto> 0, ''uv'' \<mapsto> 1, ''labels'' \<mapsto> 2],
          heap = (\<lambda>_. [])(0 := [Img ''dA'', Img ''dB'', Img ''dC'', Img ''dD''],
                           1 := [Img ''uA'', Img ''uB'', Img ''uC'', Img ''uD''],
                           2 := [Lab 0, Lab 0, Lab 0, Lab 0])\<rparr> ''dl'' = Some 0
   \<and> (0::nat) \<noteq> 1 \<and> (0::nat) \<noteq> 2 \<and> (1::nat) \<noteq> 2
   \<and> shuffle_pairs (\<lambda>t. 1) [''A'', ''B'', ''C'', ''D''] (1 / 2)
        = (Inr [(''A'', ''B'')] :: unit pyexc + _)
   \<and> swapped_positions [''A'', ''B'', ''C'', ''D''] [(''A'', ''B'')] = [0, 1]
   \<and> fst (shuffle_images (\<lambda>t. 1) (1 / 2) None None
        \<lparr>core_index = [''A'', ''B'', ''C'', ''D''],
          attrs = [''dl'' \<mapsto> 0, ''uv'' \<mapsto> 1, ''labels'' \<mapsto> 2],
          heap = (\<lambda>_. [])(0 := [Img ''dA'', Img ''dB'', Img ''dC'', Img ''dD''],
                           1 := [Img ''uA'', Img ''uB'', Img ''uC'', Img ''uD''],
                           2 := [Lab 0, Lab 0, Lab 0, Lab 0])\<rparr>) = (Returned :: unit outcome)
   \<and> core_index (snd (shuffle_images (\<lambda>t. 1) (1 / 2) None None
        \<lparr>core_index = [''A'', ''B'', ''C'', ''D''],
          attrs = [''dl'' \<mapsto> 0, ''uv'' \<mapsto> 1, ''labels'' \<mapsto> 2],
          heap = (\<lambda>_. [])(0 := [Img ''dA'', Img ''dB'', Img ''dC'', Img ''dD''],
                           1 := [Img ''uA'', Img ''uB'', Img ''uC'', Img ''uD''],
                           2 := [Lab 0, Lab 0, Lab 0, Lab 0])\<rparr> :: unit outcome \<times> _))
        = [''A'', ''B'', ''C'', ''D'']
   \<and> heap (snd (shuffle_images (\<lambda>t. 1) (1 / 2) None None
        \<lparr>core_index = [''A'', ''B'', ''C'', ''D''],
          attrs = [''dl'' \<mapsto> 0, ''uv'' \<mapsto> 1, ''labels'' \<mapsto> 2],
          heap = (\<lambda>_. [])(0 := [Img ''dA'', Img ''dB'', Img ''dC'', Img ''dD''],
                           1 := [Img ''uA'', Img ''uB'', Img ''uC'', Img ''uD''],
                           2 := [Lab 0, Lab 0, Lab 0, Lab 0])\<rparr> :: unit outcome \<times> _)) 0
        = [Img ''dA'', Img ''dB'', Img ''dC'', Img ''dD'']
   \<and> heap (snd (shuffle_images (\<lambda>t. 1) (1 / 2) None None
        \<lparr>core_index = [''A'', ''B'', ''C'', ''D''],
          attrs = [''dl'' \<mapsto> 0, ''uv'' \<mapsto> 1, ''labels'' \<mapsto> 2],
          heap = (\<lambda>_. [])(0 := [Img ''dA'', Img ''dB'', Img ''dC'', Img ''dD''],
                           1 := [Img ''uA'', Img ''uB'', Img ''uC'', Img ''uD''],
                           2 := [Lab 0, Lab 0, Lab 0, Lab 0])\<rparr> :: unit outcome \<times> _)) 1
        = [Img ''uB'', Img ''uA'', Img ''uC'', Img ''uD'']
   \<and> heap (snd (shuffle_images (\<lambda>t. 1) (1 / 2) None None
        \<lparr>core_index = [''A'', ''B'', ''C'', ''D''],
          attrs = [''dl'' \<mapsto> 0, ''uv'' \<mapsto> 1, ''labels'' \<mapsto> 2],
          heap = (\<lambda>_. [])(0 := [Img ''dA'', Img ''dB'', Img ''dC'', Img ''dD''],
                           1 := [Img ''uA'', Img ''uB'', Img ''uC'', Img ''uD''],
                           2 := [Lab 0, Lab 0, Lab 0, Lab 0])\<rparr> :: unit outcome \<times> _)) 2
        = [Lab 1, Lab 1, Lab 0, Lab 0]"
proof -
  let ?b = "\<lparr>core_index = [''A'', ''B'', ''C'', ''D''],
          attrs = [''dl'' \<mapsto> 0, ''uv'' \<mapsto> 1, ''labels'' \<mapsto> 2],
          heap = (\<lambda>_. [])(0 := [Img ''dA'', Img ''dB'', Img ''dC'', Img ''dD''],
                           1 := [Img ''uA'', Img ''uB'', Img ''uC'', Img ''uD''],
                           2 := [Lab 0, Lab 0, Lab 0, Lab 0])\<rparr> :: (string, string) core_batch"
  let ?r = "shuffle_images (\<lambda>t. 1) (1 / 2) None None ?b :: unit outcome \<times> _"
  have h1: "attrs ?b ''dl'' = Some 0" by simp
  have h2: "attrs ?b ''uv'' = Some 1" by simp
  have h3: "attrs ?b ''labels'' = Some 2" by simp
  have h4: "(0::nat) \<noteq> 1" by simp
  have h5: "(0::nat) \<noteq> 2" by simp
  have h6: "(1::nat) \<noteq> 2" by simp
  have h7: "?r = (fst ?r, snd ?r)" by simp
  note t = shuffle_images_frame [OF h1 h2 h3 h4 h5 h6 h7]
  have p: "shuffle_pairs (\<lambda>t. 1) [''A'', ''B'', ''C'', ''D''] (1 / 2)
        = (Inr [(''A'', ''B'')] :: unit pyexc + _)"
    by (simp add: shuffle_pairs_def random_choice_def n_permutations_def)
  have sp: "swapped_positions [''A'', ''B'', ''C'', ''D''] [(''A'', ''B'')] = [0, 1]"
    by (simp add: swapped_positions_def map_filter_simps)
  have o: "fst ?r = Returned" by code_simp
  have u: "heap (snd ?r) 1 = [Img ''uB'', Img ''uA'', Img ''uC'', Img ''uD'']" by code_simp
  have l: "heap (snd ?r) 2 = [Lab 1, Lab 1, Lab 0, Lab 0]" by code_simp
  from t have "core_index (snd ?r) = core_index ?b" "heap (snd ?r) 0 = heap ?b 0"
    by blast+
  then have c: "core_index (snd ?r) = [''A'', ''B'', ''C'', ''D'']"
    and d: "heap (snd ?r) 0 = [Img ''dA'', Img ''dB'', Img ''dC'', Img ''dD'']"
    by simp_all
  from h1 h4 h5 h6 p sp o c d u l show ?thesis by blast
qed

end
